theory Spec2Isabelle
  imports Complex_Main "HOL-Library.Product_Lexorder"
begin

section \<open>Streamflow statistics and metrics (program\_10.py)\<close>

text \<open>
  The program reads a table of daily discharge readings with pandas, clips it to a range
  of dates, resamples it by water year and by month, and computes descriptive metrics per
  period. The embedding below follows the source function by function. The library
  operations the source calls (\<^verbatim>\<open>dropna\<close>, \<^verbatim>\<open>mean\<close>, \<^verbatim>\<open>diff\<close>, \<^verbatim>\<open>rolling\<close>,
  \<^verbatim>\<open>resample\<close>, label slicing) are written out as list functions.
\<close>

subsection \<open>Floating-point values\<close>

text \<open>
  A float64 cell is modelled as an exact real extended by the three special values of
  IEEE arithmetic. Rounding and the sign of zero are not modelled. \<open>NaN\<close> is what pandas
  treats as the missing value.
\<close>

datatype npfloat = NaN | PInf | NInf | Fin real

fun fneg :: "npfloat \<Rightarrow> npfloat" where
  "fneg NaN = NaN"
| "fneg PInf = NInf"
| "fneg NInf = PInf"
| "fneg (Fin a) = Fin (- a)"

fun fabs :: "npfloat \<Rightarrow> npfloat" where
  "fabs NaN = NaN"
| "fabs PInf = PInf"
| "fabs NInf = PInf"
| "fabs (Fin a) = Fin \<bar>a\<bar>"

fun fadd :: "npfloat \<Rightarrow> npfloat \<Rightarrow> npfloat" where
  "fadd NaN y = NaN"
| "fadd x NaN = NaN"
| "fadd (Fin a) (Fin b) = Fin (a + b)"
| "fadd PInf NInf = NaN"
| "fadd NInf PInf = NaN"
| "fadd PInf y = PInf"
| "fadd NInf y = NInf"
| "fadd (Fin a) y = y"

definition fsub :: "npfloat \<Rightarrow> npfloat \<Rightarrow> npfloat" where
  "fsub x y = fadd x (fneg y)"

fun fmul :: "npfloat \<Rightarrow> npfloat \<Rightarrow> npfloat" where
  "fmul NaN y = NaN"
| "fmul x NaN = NaN"
| "fmul (Fin a) (Fin b) = Fin (a * b)"
| "fmul (Fin a) PInf = (if a = 0 then NaN else if 0 < a then PInf else NInf)"
| "fmul (Fin a) NInf = (if a = 0 then NaN else if 0 < a then NInf else PInf)"
| "fmul PInf (Fin b) = (if b = 0 then NaN else if 0 < b then PInf else NInf)"
| "fmul NInf (Fin b) = (if b = 0 then NaN else if 0 < b then NInf else PInf)"
| "fmul PInf PInf = PInf"
| "fmul NInf NInf = PInf"
| "fmul PInf NInf = NInf"
| "fmul NInf PInf = NInf"

text \<open>
  Division of numpy scalars: a zero divisor gives an infinity or \<open>NaN\<close> (with a
  warning), not an exception.
\<close>

fun fdiv :: "npfloat \<Rightarrow> npfloat \<Rightarrow> npfloat" where
  "fdiv NaN y = NaN"
| "fdiv x NaN = NaN"
| "fdiv (Fin a) (Fin b) =
     (if b = 0 then (if a = 0 then NaN else if 0 < a then PInf else NInf)
      else Fin (a / b))"
| "fdiv (Fin a) PInf = Fin 0"
| "fdiv (Fin a) NInf = Fin 0"
| "fdiv PInf (Fin b) = (if b < 0 then NInf else PInf)"
| "fdiv NInf (Fin b) = (if b < 0 then PInf else NInf)"
| "fdiv PInf y = NaN"
| "fdiv NInf y = NaN"

text \<open>Comparison \<open>x < y\<close>; every comparison with \<open>NaN\<close> is false.\<close>

fun flt :: "npfloat \<Rightarrow> npfloat \<Rightarrow> bool" where
  "flt NaN y = False"
| "flt x NaN = False"
| "flt (Fin a) (Fin b) = (a < b)"
| "flt NInf NInf = False"
| "flt NInf y = True"
| "flt x PInf = (x \<noteq> PInf)"
| "flt x NInf = False"
| "flt PInf y = False"

definition fgt :: "npfloat \<Rightarrow> npfloat \<Rightarrow> bool" where
  "fgt x y = flt y x"

subsection \<open>Series operations\<close>

text \<open>
  A pandas Series of floats is modelled by the list of its values in row order. The
  reductions skip missing values, as pandas does by default.
\<close>

definition dropna :: "npfloat list \<Rightarrow> npfloat list" where
  "dropna xs = filter (\<lambda>v. v \<noteq> NaN) xs"

definition isna_sum :: "npfloat list \<Rightarrow> nat" where
  "isna_sum xs = length (filter (\<lambda>v. v = NaN) xs)"

definition series_sum :: "npfloat list \<Rightarrow> npfloat" where
  "series_sum xs = foldr fadd (dropna xs) (Fin 0)"

definition series_mean :: "npfloat list \<Rightarrow> npfloat" where
  "series_mean xs =
     (if dropna xs = [] then NaN
      else fdiv (series_sum xs) (Fin (real (length (dropna xs)))))"

subsection \<open>Metric functions\<close>

text \<open>
  \<^verbatim>\<open>CalcTqmean\<close>: \<^verbatim>\<open>(Qvalues > Qvalues.mean()).sum() / len(Qvalues)\<close> after
  \<^verbatim>\<open>dropna\<close>. The sum of the boolean Series is a numpy integer, so the division by a
  zero length gives \<open>NaN\<close>.
\<close>

definition CalcTqmean :: "npfloat list \<Rightarrow> npfloat" where
  "CalcTqmean Qvalues0 =
     (let Qvalues = dropna Qvalues0 in
      fdiv (Fin (real (length (filter (\<lambda>v. fgt v (series_mean Qvalues)) Qvalues))))
           (Fin (real (length Qvalues))))"

text \<open>
  \<^verbatim>\<open>Series.diff()\<close>: the first row has no predecessor and is \<open>NaN\<close>; every other row
  holds its value minus the value of the row before it.
\<close>

fun series_diff :: "npfloat list \<Rightarrow> npfloat list" where
  "series_diff [] = []"
| "series_diff (x # xs) = NaN # map2 fsub xs (x # xs)"

text \<open>
  \<^verbatim>\<open>CalcRBindex\<close>: \<^verbatim>\<open>abs(Qvalues.diff()).sum() / Qvalues.sum()\<close> after \<^verbatim>\<open>dropna\<close>.
\<close>

definition CalcRBindex :: "npfloat list \<Rightarrow> npfloat" where
  "CalcRBindex Qvalues0 =
     (let Qvalues = dropna Qvalues0;
          abs_deltaQ = map fabs (series_diff Qvalues)
      in fdiv (series_sum abs_deltaQ) (series_sum Qvalues))"

text \<open>
  \<^verbatim>\<open>rolling(window = w).mean()\<close>: the window of row \<open>i\<close> is the \<open>w\<close> rows ending at
  \<open>i\<close> (fewer at the start); the result is \<open>NaN\<close> unless the window holds \<open>w\<close> valid
  values. The window is counted in rows, not in days.
\<close>

definition rolling_mean :: "nat \<Rightarrow> npfloat list \<Rightarrow> npfloat list" where
  "rolling_mean w xs =
     map (\<lambda>i. let win = drop (Suc i - w) (take (Suc i) xs)
              in if length (dropna win) < w then NaN else series_mean win)
         [0..<length xs]"

definition fmin :: "npfloat \<Rightarrow> npfloat \<Rightarrow> npfloat" where
  "fmin a b = (if flt b a then b else a)"

definition fmax :: "npfloat \<Rightarrow> npfloat \<Rightarrow> npfloat" where
  "fmax a b = (if flt a b then b else a)"

definition series_min :: "npfloat list \<Rightarrow> npfloat" where
  "series_min xs = (case dropna xs of [] \<Rightarrow> NaN | v # vs \<Rightarrow> foldl fmin v vs)"

definition series_max :: "npfloat list \<Rightarrow> npfloat" where
  "series_max xs = (case dropna xs of [] \<Rightarrow> NaN | v # vs \<Rightarrow> foldl fmax v vs)"

text \<open>
  \<^verbatim>\<open>Calc7Q\<close>: \<^verbatim>\<open>Qvalues.rolling(window = 7).mean().min()\<close> after \<^verbatim>\<open>dropna\<close>.
\<close>

definition Calc7Q :: "npfloat list \<Rightarrow> npfloat" where
  "Calc7Q Qvalues0 =
     (let Qvalues = dropna Qvalues0
      in series_min (rolling_mean 7 Qvalues))"

text \<open>
  The seven-day low flow in the words of the specification: the windows are the runs of
  7 consecutive days of the period as given, a window with fewer than 7 valid values is
  left out, and the result is the least window mean (\<open>NaN\<close> when no window remains).
\<close>

definition windows7 :: "npfloat list \<Rightarrow> npfloat list list" where
  "windows7 xs = map (\<lambda>i. take 7 (drop i xs)) [0..<length xs - 6]"

definition SevenQ_spec :: "npfloat list \<Rightarrow> npfloat" where
  "SevenQ_spec xs =
     series_min (map series_mean (filter (\<lambda>w. isna_sum w = 0) (windows7 xs)))"

text \<open>\<^verbatim>\<open>Series.median()\<close>: the middle of the sorted valid values.\<close>

fun finsert :: "npfloat \<Rightarrow> npfloat list \<Rightarrow> npfloat list" where
  "finsert x [] = [x]"
| "finsert x (y # ys) = (if flt y x then y # finsert x ys else x # y # ys)"

definition fsort :: "npfloat list \<Rightarrow> npfloat list" where
  "fsort xs = foldr finsert xs []"

definition series_median :: "npfloat list \<Rightarrow> npfloat" where
  "series_median xs =
     (let s = fsort (dropna xs); n = length s
      in if n = 0 then NaN
         else if odd n then s ! (n div 2)
         else fdiv (fadd (s ! (n div 2 - 1)) (s ! (n div 2))) (Fin 2))"

datatype py_error = TypeError | ValueError | KeyError | IndexError

text \<open>
  \<^verbatim>\<open>Qvalues[i]\<close> with an integer on a date-indexed Series reads by position and raises
  outside the range.
\<close>

definition series_getitem_pos :: "npfloat list \<Rightarrow> nat \<Rightarrow> py_error + npfloat" where
  "series_getitem_pos xs i = (if i < length xs then Inr (xs ! i) else Inl IndexError)"

text \<open>
  \<^verbatim>\<open>CalcExceed3TimesMedian\<close>: the loop over \<^verbatim>\<open>range(len(Qvalues))\<close> counts the rows
  above three times the median; the counter starts at the integer 0.
\<close>

fun exceed_loop :: "npfloat list \<Rightarrow> npfloat \<Rightarrow> nat list \<Rightarrow> nat \<Rightarrow> py_error + nat" where
  "exceed_loop Qvalues m3x_value [] median3x = Inr median3x"
| "exceed_loop Qvalues m3x_value (i # rest) median3x =
     (case series_getitem_pos Qvalues i of
        Inl e \<Rightarrow> Inl e
      | Inr v \<Rightarrow>
          exceed_loop Qvalues m3x_value rest
            (if fgt v m3x_value then median3x + 1 else median3x))"

definition CalcExceed3TimesMedian :: "npfloat list \<Rightarrow> py_error + nat" where
  "CalcExceed3TimesMedian Qvalues0 =
     (let Qvalues = dropna Qvalues0;
          m3x_value = fmul (Fin 3) (series_median Qvalues)
      in exceed_loop Qvalues m3x_value [0..<length Qvalues] 0)"

subsection \<open>Predicates used in the statements\<close>

text \<open>A series is constant when every value equals the first one.\<close>

fun is_constant :: "npfloat list \<Rightarrow> bool" where
  "is_constant [] = True"
| "is_constant (x # xs) = list_all (\<lambda>y. y = x) xs"

text \<open>\<open>x \<ge> 0\<close> on float cells; false for \<open>NaN\<close>.\<close>

fun fge0 :: "npfloat \<Rightarrow> bool" where
  "fge0 (Fin r) = (0 \<le> r)"
| "fge0 PInf = True"
| "fge0 NInf = False"
| "fge0 NaN = False"

subsection \<open>The daily table\<close>

text \<open>
  A date is (year, month, day); the lexicographic order of the triple is the
  chronological order. A frame is the list of its rows in row order, each row with its
  index label \<open>Date\<close> and the four columns of \<^verbatim>\<open>colNames\<close>. A text cell that is absent
  is \<open>None\<close>, a numeric one \<open>NaN\<close>. The daily table has its rows in ascending date
  order.
\<close>

type_synonym date = "int \<times> nat \<times> nat"

record obs =
  Date :: date
  agency_cd :: "string option"
  site_no :: npfloat
  Discharge :: npfloat
  Quality :: "string option"

type_synonym frame = "obs list"

text \<open>\<^verbatim>\<open>DataFrame.dropna()\<close> removes every row with a missing cell in any column.\<close>

definition row_complete :: "obs \<Rightarrow> bool" where
  "row_complete r =
     (agency_cd r \<noteq> None \<and> site_no r \<noteq> NaN \<and> Discharge r \<noteq> NaN \<and> Quality r \<noteq> None)"

definition frame_dropna :: "frame \<Rightarrow> frame" where
  "frame_dropna DataDF = filter row_complete DataDF"

subsection \<open>ReadData\<close>

text \<open>
  \<^verbatim>\<open>read_csv\<close> gives the column \<^verbatim>\<open>Discharge\<close> the type int64 when every reading of
  the file is written as an integer and none is missing, and float64 otherwise. The type
  is part of the loaded table and an argument \<open>dt\<close> of the model: iterating an int64
  column yields Python integers, iterating a float64 column yields floats. An int64
  column holds integers only.
\<close>

datatype dtype = Int64 | Float64

datatype pykey = PyInt int | PyFloat npfloat

definition iter_value :: "dtype \<Rightarrow> npfloat \<Rightarrow> pykey" where
  "iter_value dt v =
     (case dt of
        Int64 \<Rightarrow> PyInt (case v of Fin a \<Rightarrow> \<lfloor>a\<rfloor> | _ \<Rightarrow> 0)
      | Float64 \<Rightarrow> PyFloat v)"

text \<open>The test \<^verbatim>\<open>i < 0\<close> of the loop.\<close>

definition key_negative :: "pykey \<Rightarrow> bool" where
  "key_negative key = (case key of PyInt k \<Rightarrow> k < 0 | PyFloat x \<Rightarrow> flt x (Fin 0))"

text \<open>
  \<^verbatim>\<open>DataDF["Discharge"]\<close> is the Series object that the frame caches for the column:
  its labels are the dates of the rows, and it is a view of the frame's column. The loop
  of \<^verbatim>\<open>ReadData\<close> assigns \<^verbatim>\<open>DataDF["Discharge"][i] = np.NaN\<close> with the key \<open>i\<close> a
  negative discharge value, not a date.

  \<^item> An integer key on a date index is taken as a position: a negative one counts from
    the end, the row at that position is overwritten in the column and, through the
    view, in the frame, and a position outside the range raises \<^verbatim>\<open>IndexError\<close>.
  \<^item> A float key is looked up as a label. A float is never a label of the date index,
    so the assignment never reaches a row of the frame: it is an assignment under a new
    key on the cached Series. What the library does with a new float key on a
    date-indexed Series differs between pandas releases and is a parameter
    \<open>on_new_key\<close> of the model; two known behaviours are \<open>setitem_raises\<close> (the date
    index refuses the label) and \<open>setitem_enlarges\<close> (the cached Series grows by one
    row and is no longer a view of the frame).

  The state of the loop is the frame together with the cached column.
\<close>

datatype label = DateL date | NumL npfloat

type_synonym column = "(label \<times> npfloat) list"

definition frame_Discharge :: "frame \<Rightarrow> column" where
  "frame_Discharge DataDF = map (\<lambda>r. (DateL (Date r), Discharge r)) DataDF"

definition series_setitem ::
  "(column \<Rightarrow> label \<Rightarrow> npfloat \<Rightarrow> py_error + column) \<Rightarrow>
   frame \<times> column \<Rightarrow> pykey \<Rightarrow> npfloat \<Rightarrow> py_error + (frame \<times> column)" where
  "series_setitem on_new_key st key v =
     (case st of (DataDF, col) \<Rightarrow>
        (case key of
           PyInt k \<Rightarrow>
             (let p = (if k < 0 then int (length col) + k else k) in
              if 0 \<le> p \<and> p < int (length col)
              then Inr (DataDF[nat p := (DataDF ! nat p)\<lparr>Discharge := v\<rparr>],
                        col[nat p := (fst (col ! nat p), v)])
              else Inl IndexError)
         | PyFloat x \<Rightarrow>
             (if NumL x \<in> fst ` set col
              then Inr (DataDF, map (\<lambda>(l, y). if l = NumL x then (l, v) else (l, y)) col)
              else (case on_new_key col (NumL x) v of
                      Inl e \<Rightarrow> Inl e
                    | Inr col' \<Rightarrow> Inr (DataDF, col')))))"

definition setitem_raises :: "column \<Rightarrow> label \<Rightarrow> npfloat \<Rightarrow> py_error + column" where
  "setitem_raises col key v = Inl TypeError"

definition setitem_enlarges :: "column \<Rightarrow> label \<Rightarrow> npfloat \<Rightarrow> py_error + column" where
  "setitem_enlarges col key v = Inr (col @ [(key, v)])"

text \<open>
  The loop \<^verbatim>\<open>for i in DataDF["Discharge"]: if i < 0: DataDF["Discharge"][i] = np.NaN\<close>
  runs over the values the column had when the loop started.
\<close>

fun negative_loop ::
  "(column \<Rightarrow> label \<Rightarrow> npfloat \<Rightarrow> py_error + column) \<Rightarrow>
   pykey list \<Rightarrow> frame \<times> column \<Rightarrow> py_error + (frame \<times> column)" where
  "negative_loop on_new_key [] st = Inr st"
| "negative_loop on_new_key (i # rest) st =
     (if key_negative i
      then (case series_setitem on_new_key st i NaN of
              Inl e \<Rightarrow> Inl e
            | Inr st' \<Rightarrow> negative_loop on_new_key rest st')
      else negative_loop on_new_key rest st)"

text \<open>
  \<^verbatim>\<open>ReadData\<close>, from the table that \<^verbatim>\<open>read_csv\<close> and \<^verbatim>\<open>set_index('Date')\<close> produce
  (a no-data flag such as \<^verbatim>\<open>Eqp\<close> is already \<open>NaN\<close> there). The missing values are
  counted on the cached column, then \<^verbatim>\<open>DataDF.dropna()\<close> builds the returned frame.
\<close>

definition ReadData ::
  "(column \<Rightarrow> label \<Rightarrow> npfloat \<Rightarrow> py_error + column) \<Rightarrow>
   dtype \<Rightarrow> frame \<Rightarrow> py_error + (frame \<times> nat)" where
  "ReadData on_new_key dt DataDF0 =
     (case negative_loop on_new_key (map (iter_value dt \<circ> Discharge) DataDF0)
             (DataDF0, frame_Discharge DataDF0) of
        Inl e \<Rightarrow> Inl e
      | Inr (DataDF, col) \<Rightarrow>
          (let MissingValues = isna_sum (map snd col)
           in Inr (frame_dropna DataDF, MissingValues)))"

subsection \<open>ClipData\<close>

text \<open>
  \<^verbatim>\<open>DataDF.loc[startDate:endDate]\<close> on an ascending date index keeps the rows whose
  date lies between the two bounds, both included; the missing values are counted
  again on the clipped frame.
\<close>

definition ClipData :: "frame \<Rightarrow> date \<Rightarrow> date \<Rightarrow> frame \<times> nat" where
  "ClipData DataDF0 startDate endDate =
     (let DataDF = filter (\<lambda>r. startDate \<le> Date r \<and> Date r \<le> endDate) DataDF0;
          MissingValues = isna_sum (map Discharge DataDF)
      in (DataDF, MissingValues))"

subsection \<open>Example tables\<close>

text \<open>
  Three small daily tables: one with a no-data reading between two valid ones, one with
  a single no-data reading, one with a single negative reading.
\<close>

definition ex_frame :: frame where
  "ex_frame =
     [\<lparr>Date = (1975, 9, 29), agency_cd = Some ''USGS'', site_no = Fin 3335000,
        Discharge = Fin 12, Quality = Some ''A''\<rparr>,
      \<lparr>Date = (1975, 9, 30), agency_cd = Some ''USGS'', site_no = Fin 3335000,
        Discharge = NaN, Quality = Some ''A''\<rparr>,
      \<lparr>Date = (1975, 10, 1), agency_cd = Some ''USGS'', site_no = Fin 3335000,
        Discharge = Fin 7, Quality = Some ''A''\<rparr>]"

definition eqp_frame :: frame where
  "eqp_frame =
     [\<lparr>Date = (1975, 9, 30), agency_cd = Some ''USGS'', site_no = Fin 3335000,
        Discharge = NaN, Quality = Some ''A''\<rparr>]"

definition neg_frame :: frame where
  "neg_frame =
     [\<lparr>Date = (1975, 9, 30), agency_cd = Some ''USGS'', site_no = Fin 3335000,
        Discharge = Fin (- 5), Quality = Some ''A''\<rparr>]"

text \<open>
  Two tables whose readings are all written as integers (an int64 column): three
  readings with a \<open>-1\<close> in the middle, and a single reading \<open>-5\<close>.
\<close>

definition int_frame :: frame where
  "int_frame =
     [\<lparr>Date = (1975, 9, 29), agency_cd = Some ''USGS'', site_no = Fin 3335000,
        Discharge = Fin 5, Quality = Some ''A''\<rparr>,
      \<lparr>Date = (1975, 9, 30), agency_cd = Some ''USGS'', site_no = Fin 3335000,
        Discharge = Fin (- 1), Quality = Some ''A''\<rparr>,
      \<lparr>Date = (1975, 10, 1), agency_cd = Some ''USGS'', site_no = Fin 3335000,
        Discharge = Fin 7, Quality = Some ''A''\<rparr>]"

definition int_frame_short :: frame where
  "int_frame_short =
     [\<lparr>Date = (1975, 9, 30), agency_cd = Some ''USGS'', site_no = Fin 3335000,
        Discharge = Fin (- 5), Quality = Some ''A''\<rparr>]"

subsection \<open>Calendar\<close>

definition leap_year :: "int \<Rightarrow> bool" where
  "leap_year y = (if y mod 100 = 0 then y mod 400 = 0 else y mod 4 = 0)"

definition days_in_month :: "int \<Rightarrow> nat \<Rightarrow> nat" where
  "days_in_month y m =
     (if m = 2 then (if leap_year y then 29 else 28)
      else if m = 4 \<or> m = 6 \<or> m = 9 \<or> m = 11 then 30 else 31)"

definition valid_date :: "date \<Rightarrow> bool" where
  "valid_date dt =
     (case dt of (y, m, d) \<Rightarrow> 1 \<le> m \<and> m \<le> 12 \<and> 1 \<le> d \<and> d \<le> days_in_month y m)"

text \<open>Days since 1970-01-01 in the proleptic Gregorian calendar, and the day of the
  week with Monday as 0 (the convention of \<^verbatim>\<open>Timestamp.weekday()\<close>).\<close>

definition days_from_civil :: "date \<Rightarrow> int" where
  "days_from_civil dt =
     (case dt of (y, m, d) \<Rightarrow>
        let y' = (if m \<le> 2 then y - 1 else y);
            era = y' div 400;
            yoe = y' - era * 400;
            mp = (if 2 < m then int m - 3 else int m + 9);
            doy = (153 * mp + 2) div 5 + int d - 1;
            doe = yoe * 365 + yoe div 4 - yoe div 100 + doy
        in era * 146097 + doe - 719468)"

definition weekday :: "date \<Rightarrow> nat" where
  "weekday dt = nat ((days_from_civil dt + 3) mod 7)"

subsection \<open>Resampling\<close>

text \<open>
  \<^verbatim>\<open>DataDF.resample(rule)\<close> with a calendar offset cuts the time axis at the dates of
  the offset. The offsets of a rule are numbered by an integer: \<open>offset_date k\<close> is the
  date of offset \<open>k\<close>, and \<open>rollback d\<close> is the number of the last offset on or before
  \<open>d\<close>. The first bin edge is the offset rolled back from the earliest date, the last
  edge is the first offset after the latest date, and the edges between them are all
  the offsets of the range (\<^verbatim>\<open>date_range\<close>). Both rules of the program close and
  label a bin on the left: a bin holds the rows from its edge up to, but without, the
  next edge, and every bin of the range is part of the result, with or without rows.
\<close>

fun resample_bins :: "date list \<Rightarrow> frame \<Rightarrow> (date \<times> frame) list" where
  "resample_bins (e1 # e2 # es) DataDF =
     (e1, filter (\<lambda>r. e1 \<le> Date r \<and> Date r < e2) DataDF) # resample_bins (e2 # es) DataDF"
| "resample_bins es DataDF = []"

definition resample :: "(int \<Rightarrow> date) \<Rightarrow> (date \<Rightarrow> int) \<Rightarrow> frame \<Rightarrow> (date \<times> frame) list" where
  "resample offset_date rollback DataDF =
     (case DataDF of
        [] \<Rightarrow> []
      | r # rs \<Rightarrow>
          let first = rollback (fold min (map Date rs) (Date r));
              last = rollback (fold max (map Date rs) (Date r)) + 1;
              binner = map offset_date [first..last]
          in resample_bins binner DataDF)"

text \<open>\<^verbatim>\<open>'AS-OCT'\<close>: year start anchored on October; offset \<open>Y\<close> is October 1 of year \<open>Y\<close>.\<close>

definition AS_OCT_date :: "int \<Rightarrow> date" where
  "AS_OCT_date Y = (Y, 10, 1)"

definition AS_OCT_rollback :: "date \<Rightarrow> int" where
  "AS_OCT_rollback dt = (case dt of (y, m, d) \<Rightarrow> if AS_OCT_date y \<le> dt then y else y - 1)"

text \<open>
  \<^verbatim>\<open>'BMS'\<close>: business month start; offset \<open>k\<close> is the first weekday (Monday to
  Friday) of month \<open>k mod 12 + 1\<close> of year \<open>k div 12\<close>.
\<close>

definition first_bday :: "int \<Rightarrow> nat \<Rightarrow> nat" where
  "first_bday y m =
     (let w = weekday (y, m, 1) in if w = 5 then 3 else if w = 6 then 2 else 1)"

definition month_index :: "date \<Rightarrow> int" where
  "month_index dt = (case dt of (y, m, d) \<Rightarrow> 12 * y + int m - 1)"

definition BMS_date :: "int \<Rightarrow> date" where
  "BMS_date k =
     (k div 12, nat (k mod 12) + 1, first_bday (k div 12) (nat (k mod 12) + 1))"

definition BMS_rollback :: "date \<Rightarrow> int" where
  "BMS_rollback dt =
     (if BMS_date (month_index dt) \<le> dt then month_index dt else month_index dt - 1)"

subsection \<open>Period statistics\<close>

fun fsqrt :: "npfloat \<Rightarrow> npfloat" where
  "fsqrt NaN = NaN"
| "fsqrt PInf = PInf"
| "fsqrt NInf = NaN"
| "fsqrt (Fin a) = (if a < 0 then NaN else Fin (sqrt a))"

text \<open>\<^verbatim>\<open>std()\<close>: the sample standard deviation (one degree of freedom removed) of the
  valid values; \<open>NaN\<close> for fewer than two of them.\<close>

definition series_std :: "npfloat list \<Rightarrow> npfloat" where
  "series_std xs =
     (let v = dropna xs; n = length v; m = series_mean v
      in if n < 2 then NaN
         else fsqrt (fdiv (foldr fadd (map (\<lambda>x. fmul (fsub x m) (fsub x m)) v) (Fin 0))
                          (Fin (real (n - 1)))))"

text \<open>
  \<^verbatim>\<open>scipy.stats.skew\<close> is a function of another library and a parameter \<open>skew\<close> of the
  annual statistics. \<open>stats_skew\<close> is the biased sample skewness it computes: the third
  central moment over the second one to the power 3/2, \<open>NaN\<close> for a zero second
  moment and as soon as a value is missing.
\<close>

definition stats_skew :: "npfloat list \<Rightarrow> npfloat" where
  "stats_skew xs =
     (if NaN \<in> set xs then NaN
      else let n = Fin (real (length xs));
               m = fdiv (foldr fadd xs (Fin 0)) n;
               m2 = fdiv (foldr fadd (map (\<lambda>x. fmul (fsub x m) (fsub x m)) xs) (Fin 0)) n;
               m3 = fdiv (foldr fadd
                      (map (\<lambda>x. fmul (fsub x m) (fmul (fsub x m) (fsub x m))) xs) (Fin 0)) n
           in fdiv m3 (fmul m2 (fsqrt m2)))"

text \<open>One row of the annual table: the columns of \<^verbatim>\<open>GetAnnualStatistics\<close>.\<close>

record annual_row =
  WY_site_no :: npfloat
  WY_Mean_Flow :: npfloat
  WY_Peak_Flow :: npfloat
  WY_Median_Flow :: npfloat
  WY_Coeff_Var :: npfloat
  WY_Skew :: npfloat
  WY_Tqmean :: npfloat
  WY_RB_Index :: npfloat
  WY_7Q :: npfloat
  WY_3xMedian :: npfloat

text \<open>
  \<^verbatim>\<open>GetAnnualStatistics\<close>: one row per bin of \<^verbatim>\<open>resample('AS-OCT')\<close>, labelled by
  the bin's left edge; every column applies its function to the rows of the bin.
\<close>

fun annual_rows ::
  "(npfloat list \<Rightarrow> npfloat) \<Rightarrow> (date \<times> frame) list \<Rightarrow> py_error + (date \<times> annual_row) list" where
  "annual_rows skew [] = Inr []"
| "annual_rows skew ((lbl, grp) # rest) =
     (let Q = map Discharge grp in
      case CalcExceed3TimesMedian Q of
        Inl e \<Rightarrow> Inl e
      | Inr n \<Rightarrow>
          (case annual_rows skew rest of
             Inl e \<Rightarrow> Inl e
           | Inr rows \<Rightarrow>
               Inr ((lbl,
                     \<lparr>WY_site_no = series_mean (map site_no grp),
                      WY_Mean_Flow = series_mean Q,
                      WY_Peak_Flow = series_max Q,
                      WY_Median_Flow = series_median Q,
                      WY_Coeff_Var = fmul (fdiv (series_std Q) (series_mean Q)) (Fin 100),
                      WY_Skew = skew Q,
                      WY_Tqmean = CalcTqmean Q,
                      WY_RB_Index = CalcRBindex Q,
                      WY_7Q = Calc7Q Q,
                      WY_3xMedian = Fin (real n)\<rparr>) # rows)))"

definition GetAnnualStatistics ::
  "(npfloat list \<Rightarrow> npfloat) \<Rightarrow> frame \<Rightarrow> py_error + (date \<times> annual_row) list" where
  "GetAnnualStatistics skew DataDF =
     annual_rows skew (resample AS_OCT_date AS_OCT_rollback DataDF)"

text \<open>One row of the monthly table: the columns of \<^verbatim>\<open>GetMonthlyStatistics\<close>.\<close>

record monthly_row =
  site_no_avg :: npfloat
  Mean_Flow :: npfloat
  Coeff_Var :: npfloat
  Tqmean :: npfloat
  RB_Index :: npfloat

definition GetMonthlyStatistics :: "frame \<Rightarrow> (date \<times> monthly_row) list" where
  "GetMonthlyStatistics DataDF =
     map (\<lambda>(lbl, grp).
            let Q = map Discharge grp in
            (lbl,
             \<lparr>site_no_avg = series_mean (map site_no grp),
              Mean_Flow = series_mean Q,
              Coeff_Var = fmul (fdiv (series_std Q) (series_mean Q)) (Fin 100),
              Tqmean = CalcTqmean Q,
              RB_Index = CalcRBindex Q\<rparr>))
         (resample BMS_date BMS_rollback DataDF)"

subsection \<open>Monthly averages\<close>

text \<open>The slice \<^verbatim>\<open>xs[start::step]\<close>: the rows at the positions \<open>start\<close>,
  \<open>start + step\<close>, \<open>start + 2 step\<close> and so on.\<close>

definition series_slice :: "nat \<Rightarrow> nat \<Rightarrow> 'a list \<Rightarrow> 'a list" where
  "series_slice start step xs =
     map (\<lambda>j. xs ! j)
       (filter (\<lambda>j. start \<le> j \<and> (j - start) mod step = 0) [0..<length xs])"

definition month :: "nat list" where
  "month = [3, 4, 5, 6, 7, 8, 9, 10, 11, 0, 1, 2]"

text \<open>
  \<^verbatim>\<open>GetMonthlyAverages\<close>: the result has the index \<^verbatim>\<open>range(1, 13)\<close>; the loop fills
  row \<open>i\<close> (label \<open>i + 1\<close>) with the means of the slices that start at position
  \<open>month[i]\<close>, the column \<^verbatim>\<open>site_no\<close> with the mean of the slice that starts at 0.
\<close>

definition GetMonthlyAverages :: "(date \<times> monthly_row) list \<Rightarrow> (nat \<times> monthly_row) list" where
  "GetMonthlyAverages MoDataDF =
     map (\<lambda>i.
            (i + 1,
             \<lparr>site_no_avg = series_mean (series_slice 0 12 (map (site_no_avg \<circ> snd) MoDataDF)),
              Mean_Flow =
                series_mean (series_slice (month ! i) 12 (map (Mean_Flow \<circ> snd) MoDataDF)),
              Coeff_Var =
                series_mean (series_slice (month ! i) 12 (map (Coeff_Var \<circ> snd) MoDataDF)),
              Tqmean =
                series_mean (series_slice (month ! i) 12 (map (Tqmean \<circ> snd) MoDataDF)),
              RB_Index =
                series_mean (series_slice (month ! i) 12 (map (RB_Index \<circ> snd) MoDataDF))\<rparr>))
         [0..<12]"

subsection \<open>Earliest and latest date, and more example tables\<close>

definition first_date :: "frame \<Rightarrow> date" where
  "first_date DF = Min (set (map Date DF))"

definition last_date :: "frame \<Rightarrow> date" where
  "last_date DF = Max (set (map Date DF))"

text \<open>
  A table with readings in the water years 1970 and 1972 and none in 1971, and a table
  with the last day of one water year and the first day of the next.
\<close>

definition gap_frame :: frame where
  "gap_frame =
     [\<lparr>Date = (1970, 10, 5), agency_cd = Some ''USGS'', site_no = Fin 3335000,
        Discharge = Fin 1, Quality = Some ''A''\<rparr>,
      \<lparr>Date = (1972, 10, 5), agency_cd = Some ''USGS'', site_no = Fin 3335000,
        Discharge = Fin 2, Quality = Some ''A''\<rparr>]"

definition wy_frame :: frame where
  "wy_frame =
     [\<lparr>Date = (1975, 9, 30), agency_cd = Some ''USGS'', site_no = Fin 3335000,
        Discharge = Fin 4, Quality = Some ''A''\<rparr>,
      \<lparr>Date = (1975, 10, 1), agency_cd = Some ''USGS'', site_no = Fin 3335000,
        Discharge = Fin 6, Quality = Some ''A''\<rparr>]"

subsection \<open>Periods and their statistics\<close>

text \<open>
  The observations of the water year labelled \<open>Y\<close>, from October 1 of \<open>Y\<close> to
  September 30 of \<open>Y + 1\<close>, and the observations of the business month that starts at
  offset \<open>k\<close>.
\<close>

definition water_year_obs :: "int \<Rightarrow> frame \<Rightarrow> frame" where
  "water_year_obs Y DataDF =
     filter (\<lambda>r. (Y, 10, 1) \<le> Date r \<and> Date r \<le> (Y + 1, 9, 30)) DataDF"

definition BMS_period_obs :: "int \<Rightarrow> frame \<Rightarrow> frame" where
  "BMS_period_obs k DataDF =
     filter (\<lambda>r. BMS_date k \<le> Date r \<and> Date r < BMS_date (k + 1)) DataDF"

text \<open>
  A row of the annual table holds the statistics of a list of observations when each of
  its ten columns is the value of the column's function on them; likewise for the five
  columns of a row of the monthly table.
\<close>

definition annual_row_from :: "(npfloat list \<Rightarrow> npfloat) \<Rightarrow> frame \<Rightarrow> annual_row \<Rightarrow> bool" where
  "annual_row_from skew grp row =
     (WY_site_no row = series_mean (map site_no grp)
      \<and> WY_Mean_Flow row = series_mean (map Discharge grp)
      \<and> WY_Peak_Flow row = series_max (map Discharge grp)
      \<and> WY_Median_Flow row = series_median (map Discharge grp)
      \<and> WY_Coeff_Var row
          = fmul (fdiv (series_std (map Discharge grp)) (series_mean (map Discharge grp)))
              (Fin 100)
      \<and> WY_Skew row = skew (map Discharge grp)
      \<and> WY_Tqmean row = CalcTqmean (map Discharge grp)
      \<and> WY_RB_Index row = CalcRBindex (map Discharge grp)
      \<and> WY_7Q row = Calc7Q (map Discharge grp)
      \<and> map_sum id (\<lambda>n. Fin (real n)) (CalcExceed3TimesMedian (map Discharge grp))
          = Inr (WY_3xMedian row))"

definition monthly_row_from :: "frame \<Rightarrow> monthly_row \<Rightarrow> bool" where
  "monthly_row_from grp row =
     (site_no_avg row = series_mean (map site_no grp)
      \<and> Mean_Flow row = series_mean (map Discharge grp)
      \<and> Coeff_Var row
          = fmul (fdiv (series_std (map Discharge grp)) (series_mean (map Discharge grp)))
              (Fin 100)
      \<and> Tqmean row = CalcTqmean (map Discharge grp)
      \<and> RB_Index row = CalcRBindex (map Discharge grp))"

subsection \<open>Months of a monthly table\<close>

text \<open>
  The month of a label, the rows of a monthly table that belong to a month of the year,
  and the tables whose rows are the successive months beginning with an October (as the
  monthly table of a series clipped to whole water years is).
\<close>

definition month_of :: "date \<Rightarrow> nat" where
  "month_of dt = fst (snd dt)"

definition rows_of_month :: "nat \<Rightarrow> (date \<times> monthly_row) list \<Rightarrow> (date \<times> monthly_row) list" where
  "rows_of_month k MoDataDF = filter (\<lambda>p. month_of (fst p) = k) MoDataDF"

definition starts_in_October :: "(date \<times> monthly_row) list \<Rightarrow> bool" where
  "starts_in_October MoDataDF =
     (map (month_of \<circ> fst) MoDataDF = map (\<lambda>i. (i + 9) mod 12 + 1) [0..<length MoDataDF])"

text \<open>A monthly table of one water year whose mean flow is the number of the month.\<close>

definition mo_row :: "date \<Rightarrow> real \<Rightarrow> date \<times> monthly_row" where
  "mo_row d q =
     (d, \<lparr>site_no_avg = Fin 3335000, Mean_Flow = Fin q, Coeff_Var = NaN, Tqmean = NaN,
          RB_Index = NaN\<rparr>)"

definition oct_table :: "(date \<times> monthly_row) list" where
  "oct_table =
     [mo_row (1969, 10, 1) 10, mo_row (1969, 11, 3) 11, mo_row (1969, 12, 1) 12,
      mo_row (1970, 1, 1) 1, mo_row (1970, 2, 2) 2, mo_row (1970, 3, 2) 3,
      mo_row (1970, 4, 1) 4, mo_row (1970, 5, 1) 5, mo_row (1970, 6, 1) 6,
      mo_row (1970, 7, 1) 7, mo_row (1970, 8, 3) 8, mo_row (1970, 9, 1) 9]"

section \<open>Properties\<close>

text \<open>
  C7. For every period with at least one non-missing discharge value, Tqmean is a finite
  number in the closed interval from 0 to 1 (whatever the mean is, finite or not), and
  for the values 10, 20, 30, 15, 25 it equals 2/5.
\<close>

theorem CalcTqmean_unit_interval:
  "(dropna Q \<noteq> [] \<longrightarrow> (\<exists>r. CalcTqmean Q = Fin r \<and> 0 \<le> r \<and> r \<le> 1))
   \<and> CalcTqmean [Fin 10, Fin 20, Fin 30, Fin 15, Fin 25] = Fin (2 / 5)"
proof
  show "dropna Q \<noteq> [] \<longrightarrow> (\<exists>r. CalcTqmean Q = Fin r \<and> 0 \<le> r \<and> r \<le> 1)"
  proof
    assume ne: "dropna Q \<noteq> []"
    define n where "n = length (dropna Q)"
    define c where "c = length (filter (\<lambda>v. fgt v (series_mean (dropna Q))) (dropna Q))"
    have npos: "0 < n" using ne by (simp add: n_def)
    have cle: "c \<le> n" by (simp add: c_def n_def)
    have "CalcTqmean Q = Fin (real c / real n)"
      using npos by (simp add: CalcTqmean_def Let_def c_def n_def)
    moreover have "0 \<le> real c / real n" by simp
    moreover have "real c / real n \<le> 1" using npos cle by (simp add: divide_le_eq)
    ultimately show "\<exists>r. CalcTqmean Q = Fin r \<and> 0 \<le> r \<and> r \<le> 1" by blast
  qed
next
  show "CalcTqmean [Fin 10, Fin 20, Fin 30, Fin 15, Fin 25] = Fin (2 / 5)"
    by (simp add: CalcTqmean_def Let_def dropna_def series_mean_def series_sum_def fgt_def)
qed

theorem CalcTqmean_unit_interval_witness:
  "dropna [Fin 1, NaN, Fin 3] \<noteq> []
   \<and> (\<exists>r. CalcTqmean [Fin 1, NaN, Fin 3] = Fin r \<and> 0 \<le> r \<and> r \<le> 1)"
  using CalcTqmean_unit_interval [of "[Fin 1, NaN, Fin 3]"] by (simp add: dropna_def)

subsection \<open>Helper lemmas on series\<close>

lemma dropna_idem: "dropna (dropna xs) = dropna xs"
  by (simp add: dropna_def)

lemma dropna_map_Fin: "dropna (map Fin rs) = map Fin rs"
  by (induction rs) (simp_all add: dropna_def)

lemma foldr_fadd_map_Fin: "foldr fadd (map Fin rs) (Fin 0) = Fin (sum_list rs)"
  by (induction rs) simp_all

lemma series_sum_map_Fin: "series_sum (map Fin rs) = Fin (sum_list rs)"
  by (simp add: series_sum_def dropna_map_Fin foldr_fadd_map_Fin)

lemma fadd_eq_Fin: "fadd x y = Fin s \<Longrightarrow> \<exists>a b. x = Fin a \<and> y = Fin b \<and> s = a + b"
  by (cases x; cases y) simp_all

lemma foldr_fadd_eq_Fin:
  "foldr fadd xs (Fin 0) = Fin s \<Longrightarrow> \<exists>rs. xs = map Fin rs \<and> s = sum_list rs"
proof (induction xs arbitrary: s)
  case Nil
  then show ?case by simp
next
  case (Cons x xs)
  from Cons.prems have "fadd x (foldr fadd xs (Fin 0)) = Fin s" by simp
  then obtain a b where x: "x = Fin a" and b: "foldr fadd xs (Fin 0) = Fin b" and s: "s = a + b"
    using fadd_eq_Fin by blast
  from Cons.IH [OF b] obtain rs where "xs = map Fin rs" "b = sum_list rs" by blast
  then have "x # xs = map Fin (a # rs) \<and> s = sum_list (a # rs)" using x s by simp
  then show ?case by (intro exI [of _ "a # rs"])
qed

lemma map2_fsub_Fin:
  "map2 fsub (map Fin xs) (map Fin ys) = map Fin (map2 (-) xs ys)"
proof (induction xs arbitrary: ys)
  case Nil
  then show ?case by simp
next
  case (Cons a xs)
  then show ?case by (cases ys) (simp_all add: fsub_def)
qed

lemma abs_diff_map_Fin:
  "map fabs (series_diff (map Fin (r # rs))) =
     NaN # map Fin (map2 (\<lambda>a b. \<bar>a - b\<bar>) rs (r # rs))"
proof -
  have "map fabs (map2 fsub (map Fin rs) (map Fin (r # rs)))
        = map Fin (map2 (\<lambda>a b. \<bar>a - b\<bar>) rs (r # rs))"
    unfolding map2_fsub_Fin by (simp add: comp_def split_def)
  then show ?thesis by simp
qed

lemma series_sum_NaN_Cons: "series_sum (NaN # xs) = series_sum xs"
  by (simp add: series_sum_def dropna_def)

lemma path_zero_iff:
  "sum_list (map2 (\<lambda>a b. \<bar>a - b\<bar>) rs (r # rs)) = (0::real) \<longleftrightarrow> (\<forall>y\<in>set rs. y = r)"
proof (induction rs arbitrary: r)
  case Nil
  then show ?case by simp
next
  case (Cons a rs)
  have nn: "0 \<le> sum_list (map2 (\<lambda>a b. \<bar>a - b\<bar>) rs (a # rs))"
    by (rule sum_list_nonneg) auto
  have "sum_list (map2 (\<lambda>a b. \<bar>a - b\<bar>) (a # rs) (r # a # rs)) = 0
        \<longleftrightarrow> \<bar>a - r\<bar> = 0 \<and> sum_list (map2 (\<lambda>a b. \<bar>a - b\<bar>) rs (a # rs)) = 0"
    using nn by simp linarith
  also have "\<dots> \<longleftrightarrow> a = r \<and> (\<forall>y\<in>set rs. y = a)"
    using Cons.IH [of a] by simp
  finally show ?case by auto
qed

lemma path_nonneg: "0 \<le> sum_list (map2 (\<lambda>a b. \<bar>a - b\<bar>) rs (r # rs :: real list))"
  by (rule sum_list_nonneg) auto

lemma is_constant_map_Fin:
  "is_constant (map Fin (r # rs)) \<longleftrightarrow> (\<forall>y\<in>set rs. y = r)"
  by (auto simp: list_all_iff)

subsection \<open>Richards-Baker index\<close>

text \<open>
  C6 (as amended). For every period whose valid discharge values have a finite positive
  total, the Richards-Baker index is a finite number greater than or equal to zero, and
  it is zero if and only if the valid values are constant. For a zero total the index is
  not a number, also when the discharge is constant at zero.
\<close>

theorem CalcRBindex_positive_total:
  assumes "series_sum Q = Fin s" and "0 < s"
  shows "\<exists>r. CalcRBindex Q = Fin r \<and> 0 \<le> r \<and> (r = 0 \<longleftrightarrow> is_constant (dropna Q))"
proof -
  from assms(1) obtain rs where rs: "dropna Q = map Fin rs" and s: "s = sum_list rs"
    unfolding series_sum_def using foldr_fadd_eq_Fin by blast
  from s assms(2) obtain a as where ras: "rs = a # as" by (cases rs) auto
  define p where "p = sum_list (map2 (\<lambda>a b. \<bar>a - b\<bar>) as (a # as))"
  have tot: "series_sum (dropna Q) = Fin s"
    using assms(1) by (simp add: series_sum_def dropna_idem)
  have path: "series_sum (map fabs (series_diff (dropna Q))) = Fin p"
    unfolding rs ras abs_diff_map_Fin series_sum_NaN_Cons series_sum_map_Fin p_def ..
  have val: "CalcRBindex Q = Fin (p / s)"
    using assms(2) by (simp add: CalcRBindex_def Let_def path tot)
  have p0: "0 \<le> p" unfolding p_def by (rule path_nonneg)
  have "p / s = 0 \<longleftrightarrow> p = 0" using assms(2) by simp
  also have "\<dots> \<longleftrightarrow> (\<forall>y\<in>set as. y = a)" unfolding p_def by (rule path_zero_iff)
  also have "\<dots> \<longleftrightarrow> is_constant (dropna Q)" unfolding rs ras is_constant_map_Fin ..
  finally have iff: "p / s = 0 \<longleftrightarrow> is_constant (dropna Q)" .
  have "0 \<le> p / s" using p0 assms(2) by simp
  with val iff show ?thesis by blast
qed

theorem CalcRBindex_zero_counterexample:
  "\<not> fge0 (CalcRBindex [Fin 0, Fin 0])
   \<and> is_constant (dropna [Fin 0, Fin 0]) \<and> CalcRBindex [Fin 0, Fin 0] \<noteq> Fin 0"
  by (simp add: CalcRBindex_def Let_def dropna_def series_sum_def fsub_def)

theorem CalcRBindex_positive_total_witness:
  "series_sum [Fin 10, Fin 12, Fin 8, Fin 8] = Fin 38 \<and> (0::real) < 38
   \<and> (\<exists>r. CalcRBindex [Fin 10, Fin 12, Fin 8, Fin 8] = Fin r \<and> 0 \<le> r
        \<and> (r = 0 \<longleftrightarrow> is_constant (dropna [Fin 10, Fin 12, Fin 8, Fin 8])))"
proof -
  have h: "series_sum [Fin 10, Fin 12, Fin 8, Fin 8] = Fin 38"
    by (simp add: series_sum_def dropna_def)
  show ?thesis using h CalcRBindex_positive_total [OF h] by simp
qed

lemma CalcRBindex_example: "CalcRBindex [Fin 10, Fin 12, Fin 8, Fin 8] = Fin (6 / 38)"
  by (simp add: CalcRBindex_def Let_def dropna_def series_sum_def fsub_def)

subsection \<open>Metrics of a period without valid values\<close>

lemma exceed_loop_count:
  "\<forall>i\<in>set idx. i < length Q \<Longrightarrow>
   exceed_loop Q m idx c = Inr (c + length (filter (\<lambda>i. fgt (Q ! i) m) idx))"
  by (induction idx arbitrary: c) (simp_all add: series_getitem_pos_def)

lemma filter_nth_upt:
  "map ((!) xs) (filter (\<lambda>i. P (xs ! i)) [0..<length xs]) = filter P xs"
proof -
  have "filter P (map ((!) xs) [0..<length xs]) = filter P xs"
    by (simp add: map_nth)
  then show ?thesis by (simp add: filter_map comp_def)
qed

lemma CalcExceed3TimesMedian_count:
  "CalcExceed3TimesMedian Q =
     Inr (length (filter (\<lambda>v. fgt v (fmul (Fin 3) (series_median (dropna Q)))) (dropna Q)))"
proof -
  define D where "D = dropna Q"
  define m where "m = fmul (Fin 3) (series_median D)"
  have "exceed_loop D m [0..<length D] 0
        = Inr (0 + length (filter (\<lambda>i. fgt (D ! i) m) [0..<length D]))"
    by (rule exceed_loop_count) simp
  also have "length (filter (\<lambda>i. fgt (D ! i) m) [0..<length D])
             = length (filter (\<lambda>v. fgt v m) D)"
    using arg_cong [OF filter_nth_upt [of D "\<lambda>v. fgt v m"], of length] by simp
  finally show ?thesis
    by (simp add: CalcExceed3TimesMedian_def Let_def D_def m_def)
qed

text \<open>
  C3 (as amended). For every period whose discharge values are all missing,
  \<^verbatim>\<open>CalcTqmean\<close>, \<^verbatim>\<open>CalcRBindex\<close> and \<^verbatim>\<open>Calc7Q\<close> return \<open>NaN\<close> and
  \<^verbatim>\<open>CalcExceed3TimesMedian\<close> returns the integer count 0; the positional reads of the
  counting loop never leave the range, so no metric function raises, for any period.
\<close>

theorem metrics_all_missing:
  "(dropna Q = [] \<longrightarrow>
      CalcTqmean Q = NaN \<and> CalcRBindex Q = NaN \<and> Calc7Q Q = NaN
      \<and> CalcExceed3TimesMedian Q = Inr 0)
   \<and> (\<exists>n. CalcExceed3TimesMedian Q = Inr n)"
proof (intro conjI impI)
  assume e: "dropna Q = []"
  show "CalcTqmean Q = NaN"
    unfolding CalcTqmean_def Let_def e by simp
  show "CalcRBindex Q = NaN"
    unfolding CalcRBindex_def Let_def e by (simp add: series_sum_def dropna_def)
  show "Calc7Q Q = NaN"
    unfolding Calc7Q_def Let_def e by (simp add: rolling_mean_def series_min_def dropna_def)
  show "CalcExceed3TimesMedian Q = Inr 0" by (simp add: CalcExceed3TimesMedian_count e)
next
  show "\<exists>n. CalcExceed3TimesMedian Q = Inr n" by (simp add: CalcExceed3TimesMedian_count)
qed

theorem metrics_all_missing_witness:
  "dropna [NaN, NaN] = []
   \<and> CalcTqmean [NaN, NaN] = NaN \<and> CalcRBindex [NaN, NaN] = NaN \<and> Calc7Q [NaN, NaN] = NaN
   \<and> CalcExceed3TimesMedian [NaN, NaN] = Inr 0"
  using metrics_all_missing [of "[NaN, NaN]"] by (simp add: dropna_def)

theorem CalcExceed3TimesMedian_missing_counterexample:
  "CalcExceed3TimesMedian [NaN, NaN] = Inr 0"
  by (simp add: CalcExceed3TimesMedian_def Let_def dropna_def)

lemma CalcExceed3TimesMedian_example:
  "CalcExceed3TimesMedian [Fin 1, Fin 2, Fin 3, Fin 4, Fin 100] = Inr 1"
  by (simp add: CalcExceed3TimesMedian_count dropna_def series_median_def Let_def fsort_def fgt_def)

subsection \<open>Seven-day low flow\<close>

lemma series_min_dropna: "dropna xs = dropna ys \<Longrightarrow> series_min xs = series_min ys"
  by (simp add: series_min_def)

lemma dropna_no_NaN: "NaN \<notin> set (dropna xs)"
  by (simp add: dropna_def)

lemma dropna_id: "NaN \<notin> set xs \<Longrightarrow> dropna xs = xs"
  by (induction xs) (auto simp: dropna_def)

lemma isna_sum_zero: "NaN \<notin> set xs \<Longrightarrow> isna_sum xs = 0"
  by (auto simp: isna_sum_def filter_empty_conv)

lemma windows7_complete:
  assumes "NaN \<notin> set ys"
  shows "filter (\<lambda>w. isna_sum w = 0) (windows7 ys) = windows7 ys"
proof -
  have "\<forall>w\<in>set (windows7 ys). isna_sum w = 0"
  proof
    fix w assume "w \<in> set (windows7 ys)"
    then obtain i where "w = take 7 (drop i ys)" by (auto simp: windows7_def)
    then have "set w \<subseteq> set ys"
      by (metis set_take_subset set_drop_subset subset_trans)
    with assms have "NaN \<notin> set w" by blast
    then show "isna_sum w = 0" by (rule isna_sum_zero)
  qed
  then show ?thesis by (simp add: filter_id_conv)
qed

lemma rolling_cell_short:
  assumes "i < 6"
  shows "(let win = drop (Suc i - 7) (take (Suc i) ys)
          in if length (dropna win) < 7 then NaN else series_mean win) = NaN"
proof -
  define W where "W = drop (Suc i - 7) (take (Suc i) ys)"
  have "length (dropna W) \<le> length W" by (simp add: dropna_def)
  also have "\<dots> \<le> Suc i" by (simp add: W_def)
  finally have "length (dropna W) < 7" using assms by simp
  then show ?thesis by (simp add: Let_def W_def)
qed

lemma rolling_cell_full:
  assumes "NaN \<notin> set ys" and "j + 6 < length ys"
  shows "(let win = drop (Suc (j + 6) - 7) (take (Suc (j + 6)) ys)
          in if length (dropna win) < 7 then NaN else series_mean win)
         = series_mean (take 7 (drop j ys))"
proof -
  have w: "drop (Suc (j + 6) - 7) (take (Suc (j + 6)) ys) = take 7 (drop j ys)"
    by (simp add: drop_take)
  have "set (take 7 (drop j ys)) \<subseteq> set ys"
    by (metis set_take_subset set_drop_subset subset_trans)
  with assms(1) have "NaN \<notin> set (take 7 (drop j ys))" by blast
  then have "dropna (take 7 (drop j ys)) = take 7 (drop j ys)" by (rule dropna_id)
  moreover have "length (take 7 (drop j ys)) = 7" using assms(2) by simp
  ultimately show ?thesis unfolding w by (simp add: Let_def)
qed

lemma rolling_mean_7_dropna:
  assumes "NaN \<notin> set ys"
  shows "dropna (rolling_mean 7 ys) = dropna (map series_mean (windows7 ys))"
proof -
  define f where "f = (\<lambda>i. let win = drop (Suc i - 7) (take (Suc i) ys)
              in if length (dropna win) < 7 then NaN else series_mean win)"
  define n where "n = length ys"
  have rm: "rolling_mean 7 ys = map f [0..<n]" by (simp add: rolling_mean_def f_def n_def)
  show ?thesis
  proof (cases "n < 6")
    case True
    have "\<forall>i\<in>set [0..<n]. f i = NaN"
      using True rolling_cell_short [of _ ys] by (auto simp: f_def)
    then have "dropna (map f [0..<n]) = []"
      by (auto simp: dropna_def filter_empty_conv)
    moreover have "windows7 ys = []" using True by (simp add: windows7_def n_def)
    ultimately show ?thesis by (simp add: rm dropna_def)
  next
    case False
    then have "n = 6 + (n - 6)" by simp
    then have split: "[0..<n] = [0..<6] @ map (\<lambda>j. j + 6) [0..<n - 6]"
      by (metis add.commute map_add_upt upt_add_eq_append zero_le)
    have "\<forall>i\<in>set [0..<6]. f i = NaN"
      using rolling_cell_short [of _ ys] by (auto simp: f_def)
    then have first: "dropna (map f [0..<6]) = []"
      by (auto simp: dropna_def filter_empty_conv simp del: upt_Suc)
    have "\<forall>j\<in>set [0..<n - 6]. f (j + 6) = series_mean (take 7 (drop j ys))"
      using rolling_cell_full [OF assms] by (auto simp: f_def n_def)
    then have second: "map (\<lambda>j. f (j + 6)) [0..<n - 6] = map series_mean (windows7 ys)"
      by (simp add: windows7_def n_def)
    have "dropna (map f [0..<n]) = dropna (map f [0..<6]) @ dropna (map (\<lambda>j. f (j + 6)) [0..<n - 6])"
      by (subst split) (simp add: dropna_def comp_def del: upt_Suc)
    then show ?thesis by (simp add: rm first second)
  qed
qed

text \<open>
  C2 (as amended). \<^verbatim>\<open>Calc7Q\<close> removes the missing values first and then returns the
  least mean over all windows of 7 consecutive valid values, so a window may span a gap
  of missing days; with fewer than 7 valid values the result is \<open>NaN\<close>. In the words
  of the specification: it is the seven-day low flow of the period with its missing
  days deleted.
\<close>

theorem Calc7Q_valid_windows: "Calc7Q Q = SevenQ_spec (dropna Q)"
proof -
  have nn: "NaN \<notin> set (dropna Q)" by (rule dropna_no_NaN)
  have "series_min (rolling_mean 7 (dropna Q)) = series_min (map series_mean (windows7 (dropna Q)))"
    by (rule series_min_dropna) (rule rolling_mean_7_dropna [OF nn])
  then show ?thesis
    by (simp add: Calc7Q_def SevenQ_spec_def Let_def windows7_complete [OF nn])
qed

theorem Calc7Q_gap_counterexample:
  "Calc7Q [Fin 1, Fin 1, Fin 1, NaN, Fin 1, Fin 1, Fin 1, Fin 1] = Fin 1
   \<and> SevenQ_spec [Fin 1, Fin 1, Fin 1, NaN, Fin 1, Fin 1, Fin 1, Fin 1] = NaN"
  by code_simp

subsection \<open>Loading and clipping\<close>

lemma key_negative_iter_value:
  "\<not> flt v (Fin 0) \<Longrightarrow> \<not> key_negative (iter_value dt v)"
  by (cases dt; cases v) (simp_all add: key_negative_def iter_value_def)

lemma negative_loop_no_negative:
  "\<forall>k\<in>set ks. \<not> key_negative k \<Longrightarrow> negative_loop on_new_key ks st = Inr st"
  by (induction ks) simp_all

lemma isna_sum_frame_Discharge:
  "isna_sum (map snd (frame_Discharge DF)) = isna_sum (map Discharge DF)"
  by (simp add: frame_Discharge_def comp_def)

text \<open>
  The assignment of the loop leaves every row of the frame as it was loaded or with a
  missing discharge, and so does the whole loop.
\<close>

lemma series_setitem_rows:
  assumes "series_setitem on_new_key (F, col) key NaN = Inr (F', col')"
    and "length F = length DF"
    and "\<forall>p<length DF. F ! p = DF ! p \<or> Discharge (F ! p) = NaN"
  shows "length F' = length DF \<and> (\<forall>p<length DF. F' ! p = DF ! p \<or> Discharge (F' ! p) = NaN)"
proof (cases key)
  case (PyInt k)
  define q where "q = nat (if k < 0 then int (length col) + k else k)"
  from assms(1) have F': "F' = F[q := (F ! q)\<lparr>Discharge := NaN\<rparr>]"
    by (auto simp: series_setitem_def PyInt Let_def q_def split: if_splits)
  show ?thesis
  proof (intro conjI allI impI)
    show "length F' = length DF" using assms(2) by (simp add: F')
  next
    fix p assume p: "p < length DF"
    show "F' ! p = DF ! p \<or> Discharge (F' ! p) = NaN"
    proof (cases "p = q")
      case True
      then show ?thesis using p assms(2) by (simp add: F')
    next
      case False
      then show ?thesis using p assms(3) by (simp add: F')
    qed
  qed
next
  case (PyFloat x)
  from assms(1) have "F' = F"
    by (auto simp: series_setitem_def PyFloat split: if_splits sum.splits)
  then show ?thesis using assms(2,3) by simp
qed

lemma negative_loop_rows:
  assumes "negative_loop on_new_key ks (F, col) = Inr (F', col')"
    and "length F = length DF"
    and "\<forall>p<length DF. F ! p = DF ! p \<or> Discharge (F ! p) = NaN"
  shows "length F' = length DF \<and> (\<forall>p<length DF. F' ! p = DF ! p \<or> Discharge (F' ! p) = NaN)"
  using assms
proof (induction ks arbitrary: F col)
  case Nil
  then show ?case by simp
next
  case (Cons k ks)
  show ?case
  proof (cases "key_negative k")
    case False
    with Cons.prems(1) have "negative_loop on_new_key ks (F, col) = Inr (F', col')" by simp
    then show ?thesis using Cons.prems(2,3) by (rule Cons.IH)
  next
    case True
    with Cons.prems(1) obtain F1 col1
      where 1: "series_setitem on_new_key (F, col) k NaN = Inr (F1, col1)"
        and 2: "negative_loop on_new_key ks (F1, col1) = Inr (F', col')"
      by (auto split: sum.splits)
    from series_setitem_rows [OF 1 Cons.prems(2,3)]
    have "length F1 = length DF"
      and "\<forall>p<length DF. F1 ! p = DF ! p \<or> Discharge (F1 ! p) = NaN" by simp_all
    with 2 show ?thesis by (rule Cons.IH)
  qed
qed

lemma ReadData_frame:
  assumes "ReadData on_new_key dt DF = Inr (DataDF, MissingValues)"
  shows "set DataDF \<subseteq> set (frame_dropna DF)"
proof -
  from assms obtain F col
    where loop: "negative_loop on_new_key (map (iter_value dt \<circ> Discharge) DF)
                   (DF, frame_Discharge DF) = Inr (F, col)"
      and D: "DataDF = frame_dropna F"
    by (auto simp: ReadData_def Let_def split: sum.splits prod.splits)
  have inv: "length F = length DF \<and> (\<forall>p<length DF. F ! p = DF ! p \<or> Discharge (F ! p) = NaN)"
    by (rule negative_loop_rows [OF loop]) simp_all
  show ?thesis
  proof
    fix r assume "r \<in> set DataDF"
    then have rF: "r \<in> set F" and rc: "row_complete r" by (simp_all add: D frame_dropna_def)
    from rF obtain p where p: "p < length F" "r = F ! p" by (metis in_set_conv_nth)
    from rc have "Discharge r \<noteq> NaN" by (simp add: row_complete_def)
    with inv p have "r = DF ! p" and "p < length DF" by auto
    then have "r \<in> set DF" by simp
    with rc show "r \<in> set (frame_dropna DF)" by (simp add: frame_dropna_def)
  qed
qed

lemma frame_dropna_Discharge: "r \<in> set (frame_dropna DF) \<Longrightarrow> Discharge r \<noteq> NaN"
  by (simp add: frame_dropna_def row_complete_def)

lemma isna_sum_zero_iff: "isna_sum xs = 0 \<longleftrightarrow> NaN \<notin> set xs"
  by (auto simp: isna_sum_def filter_empty_conv)

lemma ReadData_ex_frame:
  "ReadData setitem_raises Float64 ex_frame = Inr ([ex_frame ! 0, ex_frame ! 2], 1)"
  by (simp add: ReadData_def ex_frame_def frame_Discharge_def frame_dropna_def
      row_complete_def isna_sum_def Let_def iter_value_def key_negative_def)

text \<open>
  C10. Whenever \<^verbatim>\<open>ReadData\<close> returns, every returned row is a row of the loaded table
  without a missing cell (the rows with a missing cell are removed after the count), so
  no returned row has a missing discharge, and \<^verbatim>\<open>ClipData\<close> applied to the returned
  frame reports zero missing values for every range of dates.
\<close>

theorem ReadData_output_has_no_missing:
  assumes "ReadData on_new_key dt DF = Inr (DataDF, MissingValues)"
  shows "set DataDF \<subseteq> set (frame_dropna DF)
         \<and> (\<forall>r\<in>set DataDF. Discharge r \<noteq> NaN)
         \<and> snd (ClipData DataDF startDate endDate) = 0"
proof -
  have fr: "set DataDF \<subseteq> set (frame_dropna DF)" using assms by (rule ReadData_frame)
  have nn: "\<forall>r\<in>set DataDF. Discharge r \<noteq> NaN"
    using fr frame_dropna_Discharge by blast
  have "NaN \<notin> set (map Discharge (filter (\<lambda>r. startDate \<le> Date r \<and> Date r \<le> endDate) DataDF))"
    using nn by auto
  then have "snd (ClipData DataDF startDate endDate) = 0"
    by (simp add: ClipData_def Let_def isna_sum_zero_iff del: set_map)
  with fr nn show ?thesis by blast
qed

theorem ReadData_output_has_no_missing_witness:
  "ReadData setitem_raises Float64 ex_frame = Inr ([ex_frame ! 0, ex_frame ! 2], 1)
   \<and> set [ex_frame ! 0, ex_frame ! 2] \<subseteq> set (frame_dropna ex_frame)
   \<and> list_all (\<lambda>r. Discharge r \<noteq> NaN) [ex_frame ! 0, ex_frame ! 2]
   \<and> snd (ClipData [ex_frame ! 0, ex_frame ! 2] (1975, 9, 1) (1975, 9, 30)) = 0"
proof -
  have "set [ex_frame ! 0, ex_frame ! 2] \<subseteq> set (frame_dropna ex_frame)
   \<and> (\<forall>r\<in>set [ex_frame ! 0, ex_frame ! 2]. Discharge r \<noteq> NaN)
   \<and> snd (ClipData [ex_frame ! 0, ex_frame ! 2] (1975, 9, 1) (1975, 9, 30)) = 0"
    by (rule ReadData_output_has_no_missing [OF ReadData_ex_frame])
  then have "set [ex_frame ! 0, ex_frame ! 2] \<subseteq> set (frame_dropna ex_frame)
   \<and> list_all (\<lambda>r. Discharge r \<noteq> NaN) [ex_frame ! 0, ex_frame ! 2]
   \<and> snd (ClipData [ex_frame ! 0, ex_frame ! 2] (1975, 9, 1) (1975, 9, 30)) = 0"
    unfolding list_all_iff .
  with ReadData_ex_frame show ?thesis by (rule conjI)
qed

text \<open>
  C1 (as amended). For a loaded table without negative discharge readings,
  \<^verbatim>\<open>ReadData\<close> returns the number of missing discharge values of the loaded table
  and exactly the rows without a missing cell, unchanged and in their order: a row whose
  discharge is the no-data value is dropped, and the number of rows shrinks by the
  number of rows with a missing cell.
\<close>

theorem ReadData_keeps_complete_rows:
  assumes "\<forall>r\<in>set DF. \<not> flt (Discharge r) (Fin 0)"
  shows "ReadData on_new_key dt DF = Inr (filter row_complete DF, isna_sum (map Discharge DF))
         \<and> length (filter row_complete DF)
             = length DF - length (filter (\<lambda>r. \<not> row_complete r) DF)"
proof -
  have "negative_loop on_new_key (map (iter_value dt \<circ> Discharge) DF) (DF, frame_Discharge DF)
        = Inr (DF, frame_Discharge DF)"
    by (rule negative_loop_no_negative) (use assms key_negative_iter_value in auto)
  then have "ReadData on_new_key dt DF
             = Inr (filter row_complete DF, isna_sum (map Discharge DF))"
    by (simp add: ReadData_def Let_def frame_dropna_def isna_sum_frame_Discharge)
  moreover have "length (filter row_complete DF)
             = length DF - length (filter (\<lambda>r. \<not> row_complete r) DF)"
    using sum_length_filter_compl [of row_complete DF] by simp
  ultimately show ?thesis by blast
qed

theorem ReadData_keeps_complete_rows_witness:
  "list_all (\<lambda>r. \<not> flt (Discharge r) (Fin 0)) ex_frame
   \<and> ReadData setitem_enlarges Float64 ex_frame
       = Inr (filter row_complete ex_frame, isna_sum (map Discharge ex_frame))
   \<and> length (filter row_complete ex_frame) = 2"
proof -
  have h: "\<forall>r\<in>set ex_frame. \<not> flt (Discharge r) (Fin 0)" by (simp add: ex_frame_def)
  have l: "length (filter (\<lambda>r. \<not> row_complete r) ex_frame) = 1"
    by (simp add: ex_frame_def row_complete_def)
  have n: "length ex_frame = 3" by (simp add: ex_frame_def)
  show ?thesis
    using h l n ReadData_keeps_complete_rows [OF h, of setitem_enlarges Float64]
    by (simp add: list_all_iff)
qed

theorem ReadData_sentinel_row_counterexample:
  "ReadData setitem_raises Float64 eqp_frame = Inr ([], 1) \<and> length eqp_frame = 1"
  by (simp add: ReadData_def eqp_frame_def frame_Discharge_def frame_dropna_def
      row_complete_def isna_sum_def Let_def iter_value_def key_negative_def)

text \<open>
  A negative reading is never replaced by the missing value in its own row. In a float
  column the assignment is keyed by the reading as a label: it raises or changes only
  the cached column. In an integer column it is keyed by the reading as a position
  counted from the end: with the readings 5, -1, 7 the last row is overwritten and
  dropped and the negative reading stays; a single reading -5 is out of range.
\<close>

lemma floor_minus_one: "\<lfloor>- 1 :: real\<rfloor> = - 1"
  using floor_of_int [of "- 1", where ?'a = real] by simp

lemma ReadData_negative_reading:
  "ReadData setitem_raises Float64 neg_frame = Inl TypeError"
  "map_sum id fst (ReadData setitem_enlarges Float64 neg_frame) = Inr neg_frame"
  "ReadData on_new_key Int64 int_frame = Inr ([int_frame ! 0, int_frame ! 1], 1)"
  "ReadData on_new_key Int64 int_frame_short = Inl IndexError"
  by (simp_all add: ReadData_def neg_frame_def int_frame_def int_frame_short_def
      frame_Discharge_def frame_dropna_def floor_minus_one
      row_complete_def isna_sum_def Let_def series_setitem_def setitem_raises_def
      setitem_enlarges_def iter_value_def key_negative_def)

text \<open>
  C8. For every daily table in ascending date order and all dates \<open>d1 \<le> d2\<close>, clipping
  the clipped table to the same range again returns the same table and the same count
  of missing values.
\<close>

theorem ClipData_idempotent:
  assumes "sorted (map Date DF)" and "d1 \<le> d2"
  shows "ClipData (fst (ClipData DF d1 d2)) d1 d2 = ClipData DF d1 d2"
  by (simp add: ClipData_def Let_def)

theorem ClipData_idempotent_witness:
  "sorted (map Date ex_frame) \<and> ((1975, 9, 30) :: date) \<le> (1975, 10, 1)
   \<and> ClipData (fst (ClipData ex_frame (1975, 9, 30) (1975, 10, 1))) (1975, 9, 30) (1975, 10, 1)
      = ClipData ex_frame (1975, 9, 30) (1975, 10, 1)
   \<and> ClipData ex_frame (1975, 9, 30) (1975, 10, 1) = ([ex_frame ! 1, ex_frame ! 2], 1)"
proof -
  have s: "sorted (map Date ex_frame)" by (simp add: ex_frame_def)
  have d: "((1975, 9, 30) :: date) \<le> (1975, 10, 1)" by simp
  have v: "ClipData ex_frame (1975, 9, 30) (1975, 10, 1) = ([ex_frame ! 1, ex_frame ! 2], 1)"
    by (simp add: ClipData_def ex_frame_def Let_def isna_sum_def)
  show ?thesis using s d v ClipData_idempotent [OF s d] by simp
qed

subsection \<open>Resampling: bins, labels, brackets\<close>

lemma resample_bins_upto:
  "resample_bins (map f [a..b]) DF =
     map (\<lambda>k. (f k, filter (\<lambda>r. f k \<le> Date r \<and> Date r < f (k + 1)) DF)) [a..b - 1]"
proof (induction "nat (b - a)" arbitrary: a)
  case 0
  then have "b \<le> a" by simp
  then consider "b < a" | "b = a" by linarith
  then show ?case by cases simp_all
next
  case (Suc n)
  then have lt: "a < b" and n: "n = nat (b - (a + 1))" by linarith+
  have 1: "[a..b] = a # [a + 1..b]"
    by (rule upto_rec1) (use lt in simp)
  have 2: "[a + 1..b] = (a + 1) # [a + 1 + 1..b]"
    by (rule upto_rec1) (use lt in simp)
  have 3: "[a..b - 1] = a # [a + 1..b - 1]"
    by (rule upto_rec1) (use lt in simp)
  have "resample_bins (map f (a # (a + 1) # [a + 1 + 1..b])) DF
        = (f a, filter (\<lambda>r. f a \<le> Date r \<and> Date r < f (a + 1)) DF)
          # resample_bins (map f ((a + 1) # [a + 1 + 1..b])) DF"
    by simp
  then have "resample_bins (map f [a..b]) DF
        = (f a, filter (\<lambda>r. f a \<le> Date r \<and> Date r < f (a + 1)) DF)
          # resample_bins (map f [a + 1..b]) DF"
    using 1 2 by simp
  also have "resample_bins (map f [a + 1..b]) DF
        = map (\<lambda>k. (f k, filter (\<lambda>r. f k \<le> Date r \<and> Date r < f (k + 1)) DF)) [a + 1..b - 1]"
    by (rule Suc.hyps(1) [OF n])
  finally show ?case unfolding 3 by simp
qed

lemma resample_groups:
  assumes "DF \<noteq> []"
  shows "resample off rb DF =
     map (\<lambda>k. (off k, filter (\<lambda>r. off k \<le> Date r \<and> Date r < off (k + 1)) DF))
       [rb (first_date DF)..rb (last_date DF)]"
proof -
  from assms obtain r rs where DF: "DF = r # rs" by (cases DF) auto
  have mn: "fold min (map Date rs) (Date r) = first_date DF"
    unfolding first_date_def DF using Min.set_eq_fold [of "Date r" "map Date rs"] by simp
  have mx: "fold max (map Date rs) (Date r) = last_date DF"
    unfolding last_date_def DF using Max.set_eq_fold [of "Date r" "map Date rs"] by simp
  have "resample off rb DF
        = resample_bins (map off [rb (first_date DF)..rb (last_date DF) + 1]) DF"
    using mn mx by (simp add: resample_def DF Let_def)
  then show ?thesis by (simp add: resample_bins_upto)
qed

lemma resample_labels:
  "DF \<noteq> [] \<Longrightarrow>
   map fst (resample off rb DF) = map off [rb (first_date DF)..rb (last_date DF)]"
  by (simp add: resample_groups comp_def)

lemma first_date_sorted:
  assumes "DF \<noteq> []" and "sorted (map Date DF)"
  shows "first_date DF = Date (hd DF)"
proof -
  from assms(1) obtain r rs where DF: "DF = r # rs" by (cases DF) auto
  show ?thesis unfolding first_date_def DF
    using assms(2) by (intro Min_eqI) (auto simp: DF)
qed

lemma last_date_sorted:
  assumes "DF \<noteq> []" and "sorted (map Date DF)"
  shows "last_date DF = Date (last DF)"
proof -
  have le: "\<And>d. d \<in> set (map Date DF) \<Longrightarrow> d \<le> last (map Date DF)"
  proof -
    fix d assume "d \<in> set (map Date DF)"
    then obtain i where i: "i < length (map Date DF)" "d = map Date DF ! i"
      by (metis in_set_conv_nth)
    have "map Date DF ! i \<le> map Date DF ! (length (map Date DF) - 1)"
      using assms(2) i(1) by (intro sorted_nth_mono) auto
    then show "d \<le> last (map Date DF)"
      using i assms(1) by (simp add: last_conv_nth)
  qed
  have "last (map Date DF) \<in> set (map Date DF)"
    using assms(1) by (intro last_in_set) simp
  then have "Max (set (map Date DF)) = last (map Date DF)"
    using le by (intro Max_eqI) auto
  then show ?thesis using assms(1) by (simp add: last_date_def last_map)
qed

lemma first_date_le: "r \<in> set DF \<Longrightarrow> first_date DF \<le> Date r"
  unfolding first_date_def by (intro Min_le) auto

lemma last_date_ge: "r \<in> set DF \<Longrightarrow> Date r \<le> last_date DF"
  unfolding last_date_def by (intro Max_ge) auto

text \<open>
  An offset rule is described by two facts: its dates ascend with the offset number, and
  the rollback of a date brackets it between two successive offsets.
\<close>

lemma bracket_unique:
  assumes mono: "\<And>j k :: int. j < k \<Longrightarrow> (off j :: date) < off k"
    and br: "off (rb d) \<le> d" "d < off (rb d + 1)"
    and k: "off k \<le> d" "d < off (k + 1)"
  shows "k = rb d"
proof (rule ccontr)
  assume "k \<noteq> rb d"
  then consider "k < rb d" | "rb d < k" by linarith
  then show False
  proof cases
    case 1
    then have "k + 1 \<le> rb d" by simp
    then have "off (k + 1) \<le> off (rb d)"
      using mono [of "k + 1" "rb d"] by (cases "k + 1 = rb d") auto
    with br(1) k(2) show False by simp
  next
    case 2
    then have "rb d + 1 \<le> k" by simp
    then have "off (rb d + 1) \<le> off k"
      using mono [of "rb d + 1" k] by (cases "rb d + 1 = k") auto
    with br(2) k(1) show False by simp
  qed
qed

lemma rollback_mono:
  assumes mono: "\<And>j k :: int. j < k \<Longrightarrow> (off j :: date) < off k"
    and br: "off (rb d) \<le> d" "d' < off (rb d' + 1)"
    and le: "d \<le> d'"
  shows "rb d \<le> rb d'"
proof (rule ccontr)
  assume "\<not> rb d \<le> rb d'"
  then have "rb d' + 1 \<le> rb d" by simp
  then have "off (rb d' + 1) \<le> off (rb d)"
    using mono [of "rb d' + 1" "rb d"] by (cases "rb d' + 1 = rb d") auto
  with br le show False by simp
qed

lemma AS_OCT_mono: "j < k \<Longrightarrow> AS_OCT_date j < AS_OCT_date k"
  by (simp add: AS_OCT_date_def)

lemma AS_OCT_bracket:
  "AS_OCT_date (AS_OCT_rollback d) \<le> d \<and> d < AS_OCT_date (AS_OCT_rollback d + 1)"
  by (cases d) (auto simp: AS_OCT_rollback_def AS_OCT_date_def)

lemma water_year_end:
  assumes "valid_date d" and "d < AS_OCT_date (Y + 1)"
  shows "d \<le> (Y + 1, 9, 30)"
  using assms by (cases d) (auto simp: valid_date_def AS_OCT_date_def days_in_month_def split: if_splits)


lemma div_mod_12:
  assumes "0 \<le> z" and "z < 12"
  shows "(12 * y + z) div 12 = (y :: int)" "(12 * y + z) mod 12 = z"
  using assms by simp_all

lemma div_mod_12_less:
  assumes "(j::int) < k"
  shows "j div 12 < k div 12 \<or> (j div 12 = k div 12 \<and> j mod 12 < k mod 12)"
proof -
  have le: "j div 12 \<le> k div 12" using assms by (intro zdiv_mono1) simp_all
  have j: "j = 12 * (j div 12) + j mod 12" and k: "k = 12 * (k div 12) + k mod 12" by simp_all
  show ?thesis
  proof (cases "j div 12 = k div 12")
    case True
    with j k assms have "j mod 12 < k mod 12" by linarith
    with True show ?thesis by simp
  next
    case False
    with le show ?thesis by simp
  qed
qed

lemma BMS_mono: "j < k \<Longrightarrow> BMS_date j < BMS_date k"
proof -
  assume "j < k"
  then have "j div 12 < k div 12 \<or> (j div 12 = k div 12 \<and> j mod 12 < k mod 12)"
    by (rule div_mod_12_less)
  then show ?thesis
  proof
    assume "j div 12 < k div 12"
    then show ?thesis by (simp add: BMS_date_def)
  next
    assume h: "j div 12 = k div 12 \<and> j mod 12 < k mod 12"
    have "0 \<le> j mod 12" by simp
    with h have "nat (j mod 12) < nat (k mod 12)" by linarith
    with h show ?thesis by (simp add: BMS_date_def)
  qed
qed

lemma BMS_date_month_index:
  assumes "1 \<le> m" and "m \<le> 12"
  shows "BMS_date (month_index (y, m, dd)) = (y, m, first_bday y m)"
proof -
  have "(12 * y + int m - 1) div 12 = y" "(12 * y + int m - 1) mod 12 = int m - 1"
    using div_mod_12 [of "int m - 1" y] assms by (simp_all add: algebra_simps)
  moreover have "Suc (nat (int m - 1)) = m" using assms by linarith
  ultimately show ?thesis by (simp add: BMS_date_def month_index_def)
qed

lemma BMS_date_fst_snd_next:
  assumes "1 \<le> m" and "m \<le> 12"
  shows "(y, m) < (fst (BMS_date (month_index (y, m, dd) + 1)),
                   fst (snd (BMS_date (month_index (y, m, dd) + 1))))"
proof -
  have "(12 * y + int m - 1 + 1) div 12 = (if m = 12 then y + 1 else y)"
       "(12 * y + int m - 1 + 1) mod 12 = (if m = 12 then 0 else int m)"
    using div_mod_12 [of "int m" y] div_mod_12 [of 0 "y + 1"] assms
    by (auto simp: algebra_simps)
  then show ?thesis using assms by (auto simp: BMS_date_def month_index_def)
qed

lemma BMS_date_fst_snd_prev:
  assumes "1 \<le> m" and "m \<le> 12"
  shows "(fst (BMS_date (month_index (y, m, dd) - 1)),
          fst (snd (BMS_date (month_index (y, m, dd) - 1)))) < (y, m)"
proof -
  have "(12 * y + int m - 1 - 1) div 12 = (if m = 1 then y - 1 else y)"
       "(12 * y + int m - 1 - 1) mod 12 = (if m = 1 then 11 else int m - 2)"
    using div_mod_12 [of "int m - 2" y] div_mod_12 [of 11 "y - 1"] assms
    by (auto simp: algebra_simps)
  then show ?thesis using assms by (auto simp: BMS_date_def month_index_def)
qed

lemma date_less_by_month:
  "(y, m) < (y', m') \<Longrightarrow> ((y, m, d) :: date) < (y', m', d')"
  by auto

lemma BMS_bracket:
  assumes "valid_date d"
  shows "BMS_date (BMS_rollback d) \<le> d \<and> d < BMS_date (BMS_rollback d + 1)"
proof -
  obtain y m dd where d: "d = (y, m, dd)" by (cases d) auto
  from assms have m: "1 \<le> m" "m \<le> 12" by (simp_all add: d valid_date_def)
  let ?k = "month_index (y, m, dd)"
  obtain y1 m1 d1 where n: "BMS_date (?k + 1) = (y1, m1, d1)" by (cases "BMS_date (?k + 1)") auto
  obtain y0 m0 d0 where p: "BMS_date (?k - 1) = (y0, m0, d0)" by (cases "BMS_date (?k - 1)") auto
  have nx: "(y, m, dd) < BMS_date (?k + 1)"
    unfolding n using BMS_date_fst_snd_next [OF m, of y dd] n by (intro date_less_by_month) simp
  have pv: "BMS_date (?k - 1) < (y, m, dd)"
    unfolding p using BMS_date_fst_snd_prev [OF m, of y dd] p by (intro date_less_by_month) simp
  show ?thesis
  proof (cases "BMS_date ?k \<le> (y, m, dd)")
    case True
    then show ?thesis using nx by (simp add: BMS_rollback_def d)
  next
    case False
    then have rb: "BMS_rollback (y, m, dd) = ?k - 1" by (simp add: BMS_rollback_def)
    from False have "(y, m, dd) < BMS_date ?k" by (rule not_le_imp_less)
    moreover from pv have "BMS_date (?k - 1) \<le> (y, m, dd)" by (rule order_less_imp_le)
    ultimately show ?thesis unfolding d rb by simp
  qed
qed

lemma annual_rows_labels:
  "\<exists>T. annual_rows skew gs = Inr T \<and> map fst T = map fst gs"
proof (induction gs)
  case Nil
  then show ?case by simp
next
  case (Cons g gs)
  obtain lbl grp where g: "g = (lbl, grp)" by (cases g) auto
  from Cons obtain T where T: "annual_rows skew gs = Inr T" "map fst T = map fst gs" by blast
  show ?case
    by (simp add: g Let_def CalcExceed3TimesMedian_count T)
qed

lemma sorted_wrt_offsets:
  assumes "\<And>j k :: int. j < k \<Longrightarrow> (off j :: date) < off k"
  shows "sorted_wrt (<) (map off [a..b])"
proof -
  have "sorted_wrt (\<lambda>j k. off j < off k) [a..b]"
    by (rule sorted_wrt_mono_rel [OF _ sorted_wrt_upto]) (rule assms)
  then show ?thesis by (simp add: sorted_wrt_map)
qed

lemma rollback_in_range:
  assumes mono: "\<And>j k :: int. j < k \<Longrightarrow> (off j :: date) < off k"
    and br: "\<And>r. r \<in> set DF \<Longrightarrow> off (rb (Date r)) \<le> Date r \<and> Date r < off (rb (Date r) + 1)"
    and r: "r \<in> set (DF :: frame)" and s: "sorted (map Date DF)"
  shows "rb (Date (hd DF)) \<le> rb (Date r) \<and> rb (Date r) \<le> rb (Date (last DF))"
proof -
  from r have ne: "DF \<noteq> []" by auto
  have h: "hd DF \<in> set DF" and l: "last DF \<in> set DF" using ne by simp_all
  have 1: "Date (hd DF) \<le> Date r"
    using first_date_le [OF r] first_date_sorted [OF ne s] by simp
  have 2: "Date r \<le> Date (last DF)"
    using last_date_ge [OF r] last_date_sorted [OF ne s] by simp
  have "rb (Date (hd DF)) \<le> rb (Date r)"
    using br [OF h] br [OF r] 1 by (intro rollback_mono [of off]) (auto intro: mono)
  moreover have "rb (Date r) \<le> rb (Date (last DF))"
    using br [OF r] br [OF l] 2 by (intro rollback_mono [of off]) (auto intro: mono)
  ultimately show ?thesis by simp
qed

lemma resample_gap_frame:
  "resample AS_OCT_date AS_OCT_rollback gap_frame =
     [((1970, 10, 1), [gap_frame ! 0]), ((1971, 10, 1), []), ((1972, 10, 1), [gap_frame ! 1])]"
  by (simp add: resample_def gap_frame_def Let_def AS_OCT_rollback_def AS_OCT_date_def
      upto_rec1 [of 1969 1972] upto_rec1 [of 1970 1972] upto_rec1 [of 1971 1972] )

lemma GetAnnualStatistics_gap_frame:
  "GetAnnualStatistics stats_skew gap_frame =
     Inr [((1970, 10, 1),
           \<lparr>WY_site_no = Fin 3335000, WY_Mean_Flow = Fin 1, WY_Peak_Flow = Fin 1,
            WY_Median_Flow = Fin 1, WY_Coeff_Var = NaN, WY_Skew = NaN, WY_Tqmean = Fin 0,
            WY_RB_Index = Fin 0, WY_7Q = NaN, WY_3xMedian = Fin 0\<rparr>),
          ((1971, 10, 1),
           \<lparr>WY_site_no = NaN, WY_Mean_Flow = NaN, WY_Peak_Flow = NaN,
            WY_Median_Flow = NaN, WY_Coeff_Var = NaN, WY_Skew = NaN, WY_Tqmean = NaN,
            WY_RB_Index = NaN, WY_7Q = NaN, WY_3xMedian = Fin 0\<rparr>),
          ((1972, 10, 1),
           \<lparr>WY_site_no = Fin 3335000, WY_Mean_Flow = Fin 2, WY_Peak_Flow = Fin 2,
            WY_Median_Flow = Fin 2, WY_Coeff_Var = NaN, WY_Skew = NaN, WY_Tqmean = Fin 0,
            WY_RB_Index = Fin 0, WY_7Q = NaN, WY_3xMedian = Fin 0\<rparr>)]"
  unfolding GetAnnualStatistics_def resample_gap_frame
  by (simp add: gap_frame_def Let_def CalcExceed3TimesMedian_count dropna_def series_mean_def
      series_sum_def series_max_def series_median_def fsort_def series_std_def stats_skew_def
      CalcTqmean_def CalcRBindex_def Calc7Q_def rolling_mean_def series_min_def fsub_def fgt_def)

lemma annual_rows_rows:
  "\<exists>T. annual_rows skew gs = Inr T
       \<and> list_all2 (\<lambda>g t. fst t = fst g \<and> annual_row_from skew (snd g) (snd t)) gs T"
proof (induction gs)
  case Nil
  then show ?case by simp
next
  case (Cons g gs)
  obtain lbl grp where g: "g = (lbl, grp)" by (cases g) auto
  from Cons obtain T where T: "annual_rows skew gs = Inr T"
    "list_all2 (\<lambda>g t. fst t = fst g \<and> annual_row_from skew (snd g) (snd t)) gs T" by blast
  show ?case
    using T by (simp add: g Let_def CalcExceed3TimesMedian_count annual_row_from_def)
qed

lemma monthly_rows_rows:
  "list_all2 (\<lambda>g t. fst t = fst g \<and> monthly_row_from (snd g) (snd t))
     (resample BMS_date BMS_rollback DF) (GetMonthlyStatistics DF)"
  unfolding GetMonthlyStatistics_def
  by (simp add: list_all2_map2 list_all2_same split_def Let_def monthly_row_from_def)

lemma water_year_obs_filter:
  assumes "\<forall>x\<in>set DF. valid_date (Date x)"
  shows "filter (\<lambda>r. AS_OCT_date Y \<le> Date r \<and> Date r < AS_OCT_date (Y + 1)) DF
         = water_year_obs Y DF"
  unfolding water_year_obs_def
proof (rule filter_cong [OF refl])
  fix x assume x: "x \<in> set DF"
  then have v: "valid_date (Date x)" using assms by blast
  have "Date x < AS_OCT_date (Y + 1) \<longleftrightarrow> Date x \<le> (Y + 1, 9, 30)"
  proof
    assume "Date x < AS_OCT_date (Y + 1)"
    with v show "Date x \<le> (Y + 1, 9, 30)" by (rule water_year_end)
  next
    assume "Date x \<le> (Y + 1, 9, 30)"
    moreover have "((Y + 1, 9, 30) :: date) < AS_OCT_date (Y + 1)" by (simp add: AS_OCT_date_def)
    ultimately show "Date x < AS_OCT_date (Y + 1)" by (rule le_less_trans)
  qed
  then show "(AS_OCT_date Y \<le> Date x \<and> Date x < AS_OCT_date (Y + 1))
             = ((Y, 10, 1) \<le> Date x \<and> Date x \<le> (Y + 1, 9, 30))"
    by (simp add: AS_OCT_date_def)
qed

lemma AS_OCT_inj: "AS_OCT_date j = AS_OCT_date k \<Longrightarrow> j = k"
  by (simp add: AS_OCT_date_def)

lemma BMS_inj: "BMS_date j = BMS_date k \<Longrightarrow> j = k"
proof (rule ccontr)
  assume e: "BMS_date j = BMS_date k" and "j \<noteq> k"
  then consider "j < k" | "k < j" by linarith
  then show False using BMS_mono [of j k] BMS_mono [of k j] e by cases simp_all
qed

lemma annual_row_of_year:
  assumes v: "\<forall>x\<in>set DF. valid_date (Date x)"
    and T: "GetAnnualStatistics skew DF = Inr T"
    and m: "(AS_OCT_date Y, row) \<in> set T"
  shows "annual_row_from skew (water_year_obs Y DF) row"
proof -
  let ?gs = "resample AS_OCT_date AS_OCT_rollback DF"
  from annual_rows_rows [of skew ?gs] T
  have la: "list_all2 (\<lambda>g t. fst t = fst g \<and> annual_row_from skew (snd g) (snd t)) ?gs T"
    by (auto simp: GetAnnualStatistics_def)
  from m obtain i where i: "i < length T" "T ! i = (AS_OCT_date Y, row)"
    by (metis in_set_conv_nth)
  from la i(1) have P: "fst (T ! i) = fst (?gs ! i) \<and> annual_row_from skew (snd (?gs ! i)) (snd (T ! i))"
    by (rule list_all2_nthD2)
  have len: "length ?gs = length T" using la by (rule list_all2_lengthD)
  then have ne: "DF \<noteq> []" using i(1) by (auto simp: resample_def)
  have "?gs ! i \<in> set ?gs" using i(1) len by simp
  then obtain k where k: "?gs ! i = (AS_OCT_date k,
      filter (\<lambda>r. AS_OCT_date k \<le> Date r \<and> Date r < AS_OCT_date (k + 1)) DF)"
    unfolding resample_groups [OF ne] by auto
  from P i(2) k have "AS_OCT_date Y = AS_OCT_date k" by simp
  then have "k = Y" by (simp add: AS_OCT_date_def)
  with P i(2) k show ?thesis by (simp add: water_year_obs_filter [OF v])
qed

lemma monthly_row_of_month:
  assumes m: "(BMS_date k, row) \<in> set (GetMonthlyStatistics DF)"
  shows "monthly_row_from (BMS_period_obs k DF) row"
proof -
  let ?gs = "resample BMS_date BMS_rollback DF" and ?T = "GetMonthlyStatistics DF"
  note la = monthly_rows_rows [of DF]
  from m obtain i where i: "i < length ?T" "?T ! i = (BMS_date k, row)"
    by (metis in_set_conv_nth)
  from la i(1) have P: "fst (?T ! i) = fst (?gs ! i) \<and> monthly_row_from (snd (?gs ! i)) (snd (?T ! i))"
    by (rule list_all2_nthD2)
  have len: "length ?gs = length ?T" using la by (rule list_all2_lengthD)
  then have ne: "DF \<noteq> []" using i(1) by (auto simp: resample_def)
  have "?gs ! i \<in> set ?gs" using i(1) len by simp
  then obtain j where j: "?gs ! i = (BMS_date j,
      filter (\<lambda>r. BMS_date j \<le> Date r \<and> Date r < BMS_date (j + 1)) DF)"
    unfolding resample_groups [OF ne] by auto
  from P i(2) j have "BMS_date k = BMS_date j" by simp
  then have "j = k" using BMS_inj by blast
  with P i(2) j show ?thesis by (simp add: BMS_period_obs_def)
qed

lemma annual_row_from_empty:
  assumes "annual_row_from skew [] row"
  shows "WY_site_no row = NaN \<and> WY_Mean_Flow row = NaN \<and> WY_Peak_Flow row = NaN
         \<and> WY_Median_Flow row = NaN \<and> WY_Coeff_Var row = NaN \<and> WY_Tqmean row = NaN
         \<and> WY_RB_Index row = NaN \<and> WY_7Q row = NaN \<and> WY_3xMedian row = Fin 0"
  using assms
  by (simp add: annual_row_from_def series_mean_def series_max_def series_median_def
      series_std_def dropna_def fsort_def Let_def CalcTqmean_def CalcRBindex_def Calc7Q_def
      rolling_mean_def series_min_def series_sum_def CalcExceed3TimesMedian_def)

lemma monthly_row_from_empty:
  assumes "monthly_row_from [] row"
  shows "site_no_avg row = NaN \<and> Mean_Flow row = NaN \<and> Coeff_Var row = NaN
         \<and> Tqmean row = NaN \<and> RB_Index row = NaN"
  using assms
  by (simp add: monthly_row_from_def series_mean_def series_std_def dropna_def Let_def
      CalcTqmean_def CalcRBindex_def series_sum_def)

subsection \<open>Period aggregation\<close>

text \<open>
  C5 (as amended). For every non-empty daily table in ascending date order, the annual
  and the monthly aggregator emit one statistics row for every period from the period
  of the first observation to the period of the last one, in chronological order: every
  period with an observation has its row, and a period without observations inside the
  span has a row as well, it is not omitted. Every row holds the statistics of the
  observations of its period; the row of a period without observations holds the
  statistics of an empty group: the mean flow and the other float statistics are
  \<open>NaN\<close>, the count of exceedance days is 0.
\<close>

theorem aggregators_emit_every_period:
  assumes ne: "DF \<noteq> []" and s: "sorted (map Date DF)"
    and v: "\<forall>r\<in>set DF. valid_date (Date r)"
  shows "(\<exists>T. GetAnnualStatistics skew DF = Inr T
            \<and> map fst T = map AS_OCT_date
                 [AS_OCT_rollback (Date (hd DF))..AS_OCT_rollback (Date (last DF))]
            \<and> sorted_wrt (<) (map fst T)
            \<and> (\<forall>r\<in>set DF. AS_OCT_date (AS_OCT_rollback (Date r)) \<in> set (map fst T))
            \<and> (\<forall>Y row. (AS_OCT_date Y, row) \<in> set T \<longrightarrow>
                  annual_row_from skew (water_year_obs Y DF) row)
            \<and> (\<forall>Y row. (AS_OCT_date Y, row) \<in> set T \<longrightarrow> water_year_obs Y DF = [] \<longrightarrow>
                  WY_site_no row = NaN \<and> WY_Mean_Flow row = NaN \<and> WY_Peak_Flow row = NaN
                  \<and> WY_Median_Flow row = NaN \<and> WY_Coeff_Var row = NaN
                  \<and> WY_Tqmean row = NaN \<and> WY_RB_Index row = NaN \<and> WY_7Q row = NaN
                  \<and> WY_3xMedian row = Fin 0))
       \<and> map fst (GetMonthlyStatistics DF)
           = map BMS_date [BMS_rollback (Date (hd DF))..BMS_rollback (Date (last DF))]
       \<and> sorted_wrt (<) (map fst (GetMonthlyStatistics DF))
       \<and> (\<forall>r\<in>set DF. BMS_date (BMS_rollback (Date r)) \<in> set (map fst (GetMonthlyStatistics DF)))
       \<and> (\<forall>k row. (BMS_date k, row) \<in> set (GetMonthlyStatistics DF) \<longrightarrow>
             monthly_row_from (BMS_period_obs k DF) row)
       \<and> (\<forall>k row. (BMS_date k, row) \<in> set (GetMonthlyStatistics DF) \<longrightarrow>
             BMS_period_obs k DF = [] \<longrightarrow>
             site_no_avg row = NaN \<and> Mean_Flow row = NaN \<and> Coeff_Var row = NaN
             \<and> Tqmean row = NaN \<and> RB_Index row = NaN)"
proof -
  note fl = first_date_sorted [OF ne s] last_date_sorted [OF ne s]
  obtain T where T: "GetAnnualStatistics skew DF = Inr T"
    and Tl: "map fst T = map fst (resample AS_OCT_date AS_OCT_rollback DF)"
    unfolding GetAnnualStatistics_def using annual_rows_labels by blast
  have al: "map fst T = map AS_OCT_date
                 [AS_OCT_rollback (Date (hd DF))..AS_OCT_rollback (Date (last DF))]"
    using Tl resample_labels [OF ne, of AS_OCT_date AS_OCT_rollback] fl by simp
  have as: "sorted_wrt (<) (map fst T)"
    unfolding al by (rule sorted_wrt_offsets) (rule AS_OCT_mono)
  have am: "\<forall>r\<in>set DF. AS_OCT_date (AS_OCT_rollback (Date r)) \<in> set (map fst T)"
  proof
    fix r assume r: "r \<in> set DF"
    have "AS_OCT_rollback (Date (hd DF)) \<le> AS_OCT_rollback (Date r)
          \<and> AS_OCT_rollback (Date r) \<le> AS_OCT_rollback (Date (last DF))"
    proof (rule rollback_in_range [where off = AS_OCT_date and rb = AS_OCT_rollback])
      show "AS_OCT_date j < AS_OCT_date k" if "j < k" for j k
        using that by (rule AS_OCT_mono)
      show "AS_OCT_date (AS_OCT_rollback (Date x)) \<le> Date x
            \<and> Date x < AS_OCT_date (AS_OCT_rollback (Date x) + 1)" if "x \<in> set DF" for x
        by (rule AS_OCT_bracket)
    qed (fact r s)+
    then show "AS_OCT_date (AS_OCT_rollback (Date r)) \<in> set (map fst T)"
      unfolding al by simp
  qed
  have "map fst (GetMonthlyStatistics DF) = map fst (resample BMS_date BMS_rollback DF)"
    by (simp add: GetMonthlyStatistics_def comp_def split_def Let_def)
  then have ml: "map fst (GetMonthlyStatistics DF)
           = map BMS_date [BMS_rollback (Date (hd DF))..BMS_rollback (Date (last DF))]"
    using resample_labels [OF ne, of BMS_date BMS_rollback] fl by simp
  have ms: "sorted_wrt (<) (map fst (GetMonthlyStatistics DF))"
    unfolding ml by (rule sorted_wrt_offsets) (rule BMS_mono)
  have mm: "\<forall>r\<in>set DF. BMS_date (BMS_rollback (Date r)) \<in> set (map fst (GetMonthlyStatistics DF))"
  proof
    fix r assume r: "r \<in> set DF"
    have "BMS_rollback (Date (hd DF)) \<le> BMS_rollback (Date r)
          \<and> BMS_rollback (Date r) \<le> BMS_rollback (Date (last DF))"
    proof (rule rollback_in_range [where off = BMS_date and rb = BMS_rollback])
      show "BMS_date j < BMS_date k" if "j < k" for j k
        using that by (rule BMS_mono)
      show "BMS_date (BMS_rollback (Date x)) \<le> Date x
            \<and> Date x < BMS_date (BMS_rollback (Date x) + 1)" if "x \<in> set DF" for x
        using that v by (intro BMS_bracket) blast
    qed (fact r s)+
    then show "BMS_date (BMS_rollback (Date r)) \<in> set (map fst (GetMonthlyStatistics DF))"
      unfolding ml by simp
  qed
  have ar: "\<forall>Y row. (AS_OCT_date Y, row) \<in> set T \<longrightarrow>
                  annual_row_from skew (water_year_obs Y DF) row"
    using annual_row_of_year [OF v T] by blast
  have ae: "\<forall>Y row. (AS_OCT_date Y, row) \<in> set T \<longrightarrow> water_year_obs Y DF = [] \<longrightarrow>
                  WY_site_no row = NaN \<and> WY_Mean_Flow row = NaN \<and> WY_Peak_Flow row = NaN
                  \<and> WY_Median_Flow row = NaN \<and> WY_Coeff_Var row = NaN
                  \<and> WY_Tqmean row = NaN \<and> WY_RB_Index row = NaN \<and> WY_7Q row = NaN
                  \<and> WY_3xMedian row = Fin 0"
  proof (intro allI impI)
    fix Y row
    assume "(AS_OCT_date Y, row) \<in> set T" and e: "water_year_obs Y DF = []"
    then have "annual_row_from skew (water_year_obs Y DF) row" using ar by blast
    then have "annual_row_from skew [] row" unfolding e .
    then show "WY_site_no row = NaN \<and> WY_Mean_Flow row = NaN \<and> WY_Peak_Flow row = NaN
                  \<and> WY_Median_Flow row = NaN \<and> WY_Coeff_Var row = NaN
                  \<and> WY_Tqmean row = NaN \<and> WY_RB_Index row = NaN \<and> WY_7Q row = NaN
                  \<and> WY_3xMedian row = Fin 0"
      by (rule annual_row_from_empty)
  qed
  have mr: "\<forall>k row. (BMS_date k, row) \<in> set (GetMonthlyStatistics DF) \<longrightarrow>
             monthly_row_from (BMS_period_obs k DF) row"
    using monthly_row_of_month by blast
  have me: "\<forall>k row. (BMS_date k, row) \<in> set (GetMonthlyStatistics DF) \<longrightarrow>
             BMS_period_obs k DF = [] \<longrightarrow>
             site_no_avg row = NaN \<and> Mean_Flow row = NaN \<and> Coeff_Var row = NaN
             \<and> Tqmean row = NaN \<and> RB_Index row = NaN"
  proof (intro allI impI)
    fix k row
    assume "(BMS_date k, row) \<in> set (GetMonthlyStatistics DF)" and e: "BMS_period_obs k DF = []"
    then have "monthly_row_from (BMS_period_obs k DF) row" using mr by blast
    then have "monthly_row_from [] row" unfolding e .
    then show "site_no_avg row = NaN \<and> Mean_Flow row = NaN \<and> Coeff_Var row = NaN
             \<and> Tqmean row = NaN \<and> RB_Index row = NaN"
      by (rule monthly_row_from_empty)
  qed
  from T al as am ar ae have A: "\<exists>T. GetAnnualStatistics skew DF = Inr T
            \<and> map fst T = map AS_OCT_date
                 [AS_OCT_rollback (Date (hd DF))..AS_OCT_rollback (Date (last DF))]
            \<and> sorted_wrt (<) (map fst T)
            \<and> (\<forall>r\<in>set DF. AS_OCT_date (AS_OCT_rollback (Date r)) \<in> set (map fst T))
            \<and> (\<forall>Y row. (AS_OCT_date Y, row) \<in> set T \<longrightarrow>
                  annual_row_from skew (water_year_obs Y DF) row)
            \<and> (\<forall>Y row. (AS_OCT_date Y, row) \<in> set T \<longrightarrow> water_year_obs Y DF = [] \<longrightarrow>
                  WY_site_no row = NaN \<and> WY_Mean_Flow row = NaN \<and> WY_Peak_Flow row = NaN
                  \<and> WY_Median_Flow row = NaN \<and> WY_Coeff_Var row = NaN
                  \<and> WY_Tqmean row = NaN \<and> WY_RB_Index row = NaN \<and> WY_7Q row = NaN
                  \<and> WY_3xMedian row = Fin 0)"
    by (intro exI [of _ T] conjI)
  from A ml ms mm mr me show ?thesis by (intro conjI)
qed

theorem annual_gap_year_counterexample:
  "map_sum id (map fst) (GetAnnualStatistics stats_skew gap_frame)
     = Inr [(1970, 10, 1), (1971, 10, 1), (1972, 10, 1)]
   \<and> map_sum id (map (WY_Mean_Flow \<circ> snd)) (GetAnnualStatistics stats_skew gap_frame)
     = Inr [Fin 1, NaN, Fin 2]
   \<and> map snd (resample AS_OCT_date AS_OCT_rollback gap_frame)
     = [[gap_frame ! 0], [], [gap_frame ! 1]]"
  unfolding GetAnnualStatistics_gap_frame resample_gap_frame by simp

theorem aggregators_emit_every_period_witness:
  "gap_frame \<noteq> [] \<and> sorted (map Date gap_frame)
   \<and> list_all (\<lambda>r. valid_date (Date r)) gap_frame
   \<and> (\<exists>T. GetAnnualStatistics stats_skew gap_frame = Inr T
          \<and> map fst T = [(1970, 10, 1), (1971, 10, 1), (1972, 10, 1)]
          \<and> water_year_obs 1971 gap_frame = []
          \<and> WY_Mean_Flow (snd (T ! 1)) = NaN \<and> WY_3xMedian (snd (T ! 1)) = Fin 0)
   \<and> map fst (GetMonthlyStatistics gap_frame) = map BMS_date [23649..23673]"
proof -
  have ne: "gap_frame \<noteq> []" by (simp add: gap_frame_def)
  have s: "sorted (map Date gap_frame)" by (simp add: gap_frame_def)
  have v: "\<forall>r\<in>set gap_frame. valid_date (Date r)"
    by (simp add: gap_frame_def valid_date_def days_in_month_def)
  have hd: "Date (hd gap_frame) = (1970, 10, 5)" and la: "Date (last gap_frame) = (1972, 10, 5)"
    by (simp_all add: gap_frame_def)
  have a: "AS_OCT_rollback (1970, 10, 5) = 1970" "AS_OCT_rollback (1972, 10, 5) = 1972"
    by (simp_all add: AS_OCT_rollback_def AS_OCT_date_def)
  have w: "weekday (1970, 10, 1) = 3" "weekday (1972, 10, 1) = 6"
    by (simp_all add: weekday_def days_from_civil_def Let_def)
  have b: "BMS_rollback (1970, 10, 5) = 23649" "BMS_rollback (1972, 10, 5) = 23673"
    by (simp_all add: BMS_rollback_def BMS_date_def month_index_def first_bday_def w Let_def)
  have u: "map AS_OCT_date [1970..1972] = [(1970, 10, 1), (1971, 10, 1), (1972, 10, 1)]"
    by (simp add: AS_OCT_date_def upto_rec1 [of 1970 1972] upto_rec1 [of 1971 1972])
  note t = aggregators_emit_every_period [OF ne s v, of stats_skew, unfolded hd la a b u]
  from t [THEN conjunct1] obtain T
    where 1: "GetAnnualStatistics stats_skew gap_frame = Inr T"
      and 2: "map fst T = [(1970, 10, 1), (1971, 10, 1), (1972, 10, 1)]"
      and 3: "\<forall>Y row. (AS_OCT_date Y, row) \<in> set T \<longrightarrow> water_year_obs Y gap_frame = [] \<longrightarrow>
                  WY_site_no row = NaN \<and> WY_Mean_Flow row = NaN \<and> WY_Peak_Flow row = NaN
                  \<and> WY_Median_Flow row = NaN \<and> WY_Coeff_Var row = NaN
                  \<and> WY_Tqmean row = NaN \<and> WY_RB_Index row = NaN \<and> WY_7Q row = NaN
                  \<and> WY_3xMedian row = Fin 0"
    by (elim exE conjE)
  have g: "water_year_obs 1971 gap_frame = []"
    by (simp add: water_year_obs_def gap_frame_def)
  from 2 have len: "length T = 3" by (metis length_map length_Cons list.size(3) One_nat_def
        Suc_eq_plus1 numeral_3_eq_3)
  from 2 have "map fst T ! 1 = (1971, 10, 1)" by simp
  with len have f: "fst (T ! 1) = AS_OCT_date 1971" by (simp add: AS_OCT_date_def)
  have "T ! 1 \<in> set T" using len by simp
  then have "(AS_OCT_date 1971, snd (T ! 1)) \<in> set T" using f by (metis prod.collapse)
  with 3 g have 4: "WY_Mean_Flow (snd (T ! 1)) = NaN" and 5: "WY_3xMedian (snd (T ! 1)) = Fin 0"
    by blast+
  from 1 2 g 4 5 have e: "\<exists>T. GetAnnualStatistics stats_skew gap_frame = Inr T
          \<and> map fst T = [(1970, 10, 1), (1971, 10, 1), (1972, 10, 1)]
          \<and> water_year_obs 1971 gap_frame = []
          \<and> WY_Mean_Flow (snd (T ! 1)) = NaN \<and> WY_3xMedian (snd (T ! 1)) = Fin 0"
    by (intro exI [of _ T] conjI)
  have m: "map fst (GetMonthlyStatistics gap_frame) = map BMS_date [23649..23673]"
    by (rule t [THEN conjunct2, THEN conjunct1])
  have l: "list_all (\<lambda>r. valid_date (Date r)) gap_frame"
    unfolding list_all_iff by (rule v)
  from ne s l e m show ?thesis by (intro conjI)
qed

text \<open>
  C9. The annual aggregator groups by \<^verbatim>\<open>resample('AS-OCT')\<close> and computes one row
  of the annual table from each group. Every observation lies in the group labelled
  October 1 of exactly one year \<open>Y\<close>, its date lies between October 1 of \<open>Y\<close> and
  September 30 of \<open>Y + 1\<close>, and that group is part of the result. The annual table
  has exactly one row labelled October 1 of \<open>Y\<close>, and every row of the table holds the
  statistics of exactly the observations of the water year of its label, so each
  observation enters the row of its water year and no other row. 1975-09-30 belongs to
  water year 1974 and 1975-10-01 to water year 1975.
\<close>

theorem water_year_assignment:
  assumes r: "r \<in> set DF" and va: "\<forall>x\<in>set DF. valid_date (Date x)"
  shows "AS_OCT_date (AS_OCT_rollback (Date r)) \<le> Date r
         \<and> Date r \<le> (AS_OCT_rollback (Date r) + 1, 9, 30)
         \<and> (\<forall>lbl grp. (lbl, grp) \<in> set (resample AS_OCT_date AS_OCT_rollback DF) \<longrightarrow>
               (r \<in> set grp \<longleftrightarrow> lbl = AS_OCT_date (AS_OCT_rollback (Date r))))
         \<and> AS_OCT_date (AS_OCT_rollback (Date r))
             \<in> set (map fst (resample AS_OCT_date AS_OCT_rollback DF))
         \<and> (\<forall>Y. r \<in> set (water_year_obs Y DF) \<longleftrightarrow> Y = AS_OCT_rollback (Date r))
         \<and> (\<exists>T. GetAnnualStatistics skew DF = Inr T
                \<and> map fst T = map fst (resample AS_OCT_date AS_OCT_rollback DF)
                \<and> distinct (map fst T)
                \<and> (\<exists>row. (AS_OCT_date (AS_OCT_rollback (Date r)), row) \<in> set T)
                \<and> (\<forall>Y row. (AS_OCT_date Y, row) \<in> set T \<longrightarrow>
                      annual_row_from skew (water_year_obs Y DF) row))
         \<and> AS_OCT_rollback (1975, 9, 30) = 1974 \<and> AS_OCT_rollback (1975, 10, 1) = 1975"
proof -
  let ?Y = "AS_OCT_rollback (Date r)"
  from r va have v: "valid_date (Date r)" by blast
  from r have ne: "DF \<noteq> []" by auto
  note br = AS_OCT_bracket [of "Date r"]
  have 1: "AS_OCT_date ?Y \<le> Date r" using br by simp
  have 2: "Date r \<le> (?Y + 1, 9, 30)" using br v by (intro water_year_end) simp_all
  have lo: "AS_OCT_rollback (first_date DF) \<le> ?Y"
    using AS_OCT_bracket first_date_le [OF r]
    by (intro rollback_mono [of AS_OCT_date]) (auto intro: AS_OCT_mono)
  have hi: "?Y \<le> AS_OCT_rollback (last_date DF)"
    using AS_OCT_bracket last_date_ge [OF r]
    by (intro rollback_mono [of AS_OCT_date]) (auto intro: AS_OCT_mono)
  have 4: "AS_OCT_date ?Y \<in> set (map fst (resample AS_OCT_date AS_OCT_rollback DF))"
    unfolding resample_labels [OF ne] using lo hi by simp
  have 3: "\<forall>lbl grp. (lbl, grp) \<in> set (resample AS_OCT_date AS_OCT_rollback DF) \<longrightarrow>
               (r \<in> set grp \<longleftrightarrow> lbl = AS_OCT_date ?Y)"
  proof (intro allI impI)
    fix lbl grp
    assume "(lbl, grp) \<in> set (resample AS_OCT_date AS_OCT_rollback DF)"
    then obtain k where lbl: "lbl = AS_OCT_date k"
      and grp: "grp = filter (\<lambda>r. AS_OCT_date k \<le> Date r \<and> Date r < AS_OCT_date (k + 1)) DF"
      unfolding resample_groups [OF ne] by auto
    show "r \<in> set grp \<longleftrightarrow> lbl = AS_OCT_date ?Y"
    proof
      assume "r \<in> set grp"
      then have "AS_OCT_date k \<le> Date r" "Date r < AS_OCT_date (k + 1)" by (simp_all add: grp)
      then have "k = ?Y"
        using br by (intro bracket_unique [of AS_OCT_date]) (auto intro: AS_OCT_mono)
      then show "lbl = AS_OCT_date ?Y" by (simp add: lbl)
    next
      assume "lbl = AS_OCT_date ?Y"
      then have "k = ?Y" by (simp add: lbl AS_OCT_date_def)
      then show "r \<in> set grp" using br r by (simp add: grp)
    qed
  qed
  have 8: "\<forall>Y. r \<in> set (water_year_obs Y DF) \<longleftrightarrow> Y = ?Y"
  proof
    fix Y
    have "r \<in> set (water_year_obs Y DF)
          \<longleftrightarrow> AS_OCT_date Y \<le> Date r \<and> Date r < AS_OCT_date (Y + 1)"
      unfolding water_year_obs_filter [OF va, symmetric] using r by simp
    also have "\<dots> \<longleftrightarrow> Y = ?Y"
    proof
      assume "AS_OCT_date Y \<le> Date r \<and> Date r < AS_OCT_date (Y + 1)"
      then show "Y = ?Y"
        using br by (intro bracket_unique [of AS_OCT_date]) (auto intro: AS_OCT_mono)
    next
      assume "Y = ?Y"
      then show "AS_OCT_date Y \<le> Date r \<and> Date r < AS_OCT_date (Y + 1)" using br by simp
    qed
    finally show "r \<in> set (water_year_obs Y DF) \<longleftrightarrow> Y = ?Y" .
  qed
  obtain T where T: "GetAnnualStatistics skew DF = Inr T"
    and Tl: "map fst T = map fst (resample AS_OCT_date AS_OCT_rollback DF)"
    unfolding GetAnnualStatistics_def using annual_rows_labels by blast
  have "inj_on AS_OCT_date (set [AS_OCT_rollback (first_date DF)..AS_OCT_rollback (last_date DF)])"
    by (rule inj_onI) (rule AS_OCT_inj)
  then have Td: "distinct (map fst T)"
    unfolding Tl resample_labels [OF ne] by (simp add: distinct_map)
  from 4 Tl have "AS_OCT_date ?Y \<in> fst ` set T" by (metis set_map)
  then have Tr: "\<exists>row. (AS_OCT_date ?Y, row) \<in> set T" by force
  have Ts: "\<forall>Y row. (AS_OCT_date Y, row) \<in> set T \<longrightarrow>
                      annual_row_from skew (water_year_obs Y DF) row"
    using annual_row_of_year [OF va T] by blast
  from T Tl Td Tr Ts have 5: "\<exists>T. GetAnnualStatistics skew DF = Inr T
                \<and> map fst T = map fst (resample AS_OCT_date AS_OCT_rollback DF)
                \<and> distinct (map fst T)
                \<and> (\<exists>row. (AS_OCT_date ?Y, row) \<in> set T)
                \<and> (\<forall>Y row. (AS_OCT_date Y, row) \<in> set T \<longrightarrow>
                      annual_row_from skew (water_year_obs Y DF) row)"
    by (intro exI [of _ T] conjI)
  have 6: "AS_OCT_rollback (1975, 9, 30) = 1974" and 7: "AS_OCT_rollback (1975, 10, 1) = 1975"
    by (simp_all add: AS_OCT_rollback_def AS_OCT_date_def)
  from 1 2 3 4 8 5 6 7 show ?thesis by (intro conjI)
qed

theorem water_year_assignment_witness:
  "wy_frame ! 0 \<in> set wy_frame \<and> list_all (\<lambda>x. valid_date (Date x)) wy_frame
   \<and> AS_OCT_date 1974 \<le> Date (wy_frame ! 0) \<and> Date (wy_frame ! 0) \<le> (1975, 9, 30)
   \<and> AS_OCT_date 1974 \<in> set (map fst (resample AS_OCT_date AS_OCT_rollback wy_frame))
   \<and> (\<exists>T row. GetAnnualStatistics stats_skew wy_frame = Inr T
         \<and> (AS_OCT_date 1974, row) \<in> set T \<and> WY_Mean_Flow row = Fin 4
         \<and> WY_Peak_Flow row = Fin 4)"
proof -
  have r: "wy_frame ! 0 \<in> set wy_frame" by (simp add: wy_frame_def)
  have v: "\<forall>x\<in>set wy_frame. valid_date (Date x)"
    by (simp add: wy_frame_def valid_date_def days_in_month_def)
  have y: "AS_OCT_rollback (Date (wy_frame ! 0)) = 1974"
    by (simp add: wy_frame_def AS_OCT_rollback_def AS_OCT_date_def)
  note t = water_year_assignment [OF r v, where skew = stats_skew, unfolded y]
  have a: "AS_OCT_date 1974 \<le> Date (wy_frame ! 0)" by (rule t [THEN conjunct1])
  have b: "Date (wy_frame ! 0) \<le> (1975, 9, 30)"
    using t [THEN conjunct2, THEN conjunct1] by simp
  have c: "AS_OCT_date 1974 \<in> set (map fst (resample AS_OCT_date AS_OCT_rollback wy_frame))"
    by (rule t [THEN conjunct2, THEN conjunct2, THEN conjunct2, THEN conjunct1])
  from t obtain T row
    where 1: "GetAnnualStatistics stats_skew wy_frame = Inr T"
      and 2: "(AS_OCT_date 1974, row) \<in> set T"
      and 3: "\<forall>Y row. (AS_OCT_date Y, row) \<in> set T \<longrightarrow>
                 annual_row_from stats_skew (water_year_obs Y wy_frame) row"
    by (elim exE conjE)
  have o: "map Discharge (water_year_obs 1974 wy_frame) = [Fin 4]"
    by (simp add: water_year_obs_def wy_frame_def)
  from 2 3 have "annual_row_from stats_skew (water_year_obs 1974 wy_frame) row" by blast
  then have 4: "WY_Mean_Flow row = Fin 4" and 5: "WY_Peak_Flow row = Fin 4"
    unfolding annual_row_from_def o
    by (simp_all add: series_mean_def series_sum_def series_max_def dropna_def)
  from 1 2 4 5 have e: "\<exists>T row. GetAnnualStatistics stats_skew wy_frame = Inr T
         \<and> (AS_OCT_date 1974, row) \<in> set T \<and> WY_Mean_Flow row = Fin 4
         \<and> WY_Peak_Flow row = Fin 4"
    by (intro exI [of _ T] exI [of _ row] conjI)
  have l: "list_all (\<lambda>x. valid_date (Date x)) wy_frame"
    unfolding list_all_iff by (rule v)
  from r l a b c e show ?thesis by (intro conjI)
qed

subsection \<open>Monthly averages\<close>

lemma mod_12_shift:
  "((j::nat) + 9) mod 12 = (s + 9) mod 12 \<longleftrightarrow> j mod 12 = s mod 12"
proof
  assume h: "(j + 9) mod 12 = (s + 9) mod 12"
  have "(j + 9 + 3) mod 12 = (s + 9 + 3) mod 12"
    using h by (rule mod_add_cong) simp
  then show "j mod 12 = s mod 12" by simp
next
  assume "j mod 12 = s mod 12"
  then show "(j + 9) mod 12 = (s + 9) mod 12" by (rule mod_add_cong) simp
qed

lemma slice_arith:
  assumes "s < (12::nat)"
  shows "(s \<le> j \<and> (j - s) mod 12 = 0) \<longleftrightarrow> (j + 9) mod 12 + 1 = (s + 9) mod 12 + 1"
proof -
  have "(s \<le> j \<and> (j - s) mod 12 = 0) \<longleftrightarrow> j mod 12 = s"
  proof
    assume h: "s \<le> j \<and> (j - s) mod 12 = 0"
    then obtain q where "j - s = 12 * q" by auto
    with h have "j = s + 12 * q" by simp
    then show "j mod 12 = s" using assms by simp
  next
    assume h: "j mod 12 = s"
    have j: "j = 12 * (j div 12) + j mod 12" by simp
    then have "s \<le> j" using h by linarith
    moreover have "j - s = 12 * (j div 12)" using j h by linarith
    ultimately show "s \<le> j \<and> (j - s) mod 12 = 0" by simp
  qed
  also have "j mod 12 = s \<longleftrightarrow> j mod 12 = s mod 12" using assms by simp
  also have "\<dots> \<longleftrightarrow> (j + 9) mod 12 = (s + 9) mod 12" by (rule mod_12_shift [symmetric])
  finally show ?thesis by simp
qed

lemma month_nth: "i < 12 \<Longrightarrow> month ! i = (i + 3) mod 12"
proof -
  assume "i < 12"
  then have "i = 0 \<or> i = 1 \<or> i = 2 \<or> i = 3 \<or> i = 4 \<or> i = 5 \<or> i = 6
    \<or> i = 7 \<or> i = 8 \<or> i = 9 \<or> i = 10 \<or> i = 11" by arith
  then show ?thesis by (elim disjE) (simp_all add: month_def)
qed

lemma month_calendar:
  assumes "1 \<le> k" and "k \<le> 12"
  shows "month ! (k - 1) < 12" and "(month ! (k - 1) + 9) mod 12 + 1 = k"
proof -
  have m: "month ! (k - 1) = (k - 1 + 3) mod 12" using assms by (intro month_nth) simp
  show "month ! (k - 1) < 12" unfolding m by simp
  have "k = 1 \<or> k = 2 \<or> k = 3 \<or> k = 4 \<or> k = 5 \<or> k = 6
    \<or> k = 7 \<or> k = 8 \<or> k = 9 \<or> k = 10 \<or> k = 11 \<or> k = 12" using assms by arith
  then show "(month ! (k - 1) + 9) mod 12 + 1 = k"
    unfolding m by (elim disjE) simp_all
qed

lemma filter_as_positions:
  "filter P xs = map ((!) xs) (filter (\<lambda>j. P (xs ! j)) [0..<length xs])"
proof -
  have "filter P (map ((!) xs) [0..<length xs]) = filter P xs"
    by (simp add: map_nth)
  then show ?thesis by (simp add: filter_map comp_def)
qed

lemma series_slice_month:
  assumes al: "starts_in_October T" and s: "s < 12"
  shows "series_slice s 12 (map f T) = map f (rows_of_month ((s + 9) mod 12 + 1) T)"
proof -
  let ?k = "(s + 9) mod 12 + 1"
  have mo: "month_of (fst (T ! j)) = (j + 9) mod 12 + 1" if "j < length T" for j
  proof -
    have "map (month_of \<circ> fst) T ! j = map (\<lambda>i. (i + 9) mod 12 + 1) [0..<length T] ! j"
      using al by (simp add: starts_in_October_def)
    then show ?thesis using that by simp
  qed
  have eq: "filter (\<lambda>j. s \<le> j \<and> (j - s) mod 12 = 0) [0..<length T]
            = filter (\<lambda>j. month_of (fst (T ! j)) = ?k) [0..<length T]"
    by (rule filter_cong) (simp_all add: mo slice_arith [OF s])
  have "series_slice s 12 (map f T)
        = map ((!) (map f T)) (filter (\<lambda>j. month_of (fst (T ! j)) = ?k) [0..<length T])"
    by (simp add: series_slice_def eq)
  also have "\<dots> = map f (map ((!) T) (filter (\<lambda>j. month_of (fst (T ! j)) = ?k) [0..<length T]))"
    by simp
  also have "\<dots> = map f (filter (\<lambda>p. month_of (fst p) = ?k) T)"
    using filter_as_positions [of "\<lambda>p. month_of (fst p) = ?k" T] by simp
  finally show ?thesis by (simp add: rows_of_month_def)
qed

lemma GetMonthlyAverages_nth:
  assumes "i < 12"
  shows "GetMonthlyAverages T ! i =
     (i + 1,
      \<lparr>site_no_avg = series_mean (series_slice 0 12 (map (site_no_avg \<circ> snd) T)),
       Mean_Flow = series_mean (series_slice (month ! i) 12 (map (Mean_Flow \<circ> snd) T)),
       Coeff_Var = series_mean (series_slice (month ! i) 12 (map (Coeff_Var \<circ> snd) T)),
       Tqmean = series_mean (series_slice (month ! i) 12 (map (Tqmean \<circ> snd) T)),
       RB_Index = series_mean (series_slice (month ! i) 12 (map (RB_Index \<circ> snd) T))\<rparr>)"
  using assms unfolding GetMonthlyAverages_def by (simp only: nth_map length_upt nth_upt) simp

text \<open>
  The monthly table of a series whose first observation falls in an October bin is such
  a table: \<^verbatim>\<open>resample('BMS')\<close> emits every month from the first one on.
\<close>

lemma month_of_BMS_date: "month_of (BMS_date k) = nat (k mod 12) + 1"
  by (simp add: month_of_def BMS_date_def)

lemma GetMonthlyStatistics_labels:
  "map fst (GetMonthlyStatistics DF) = map fst (resample BMS_date BMS_rollback DF)"
  by (simp add: GetMonthlyStatistics_def comp_def split_def Let_def)

lemma GetMonthlyStatistics_starts_in_October:
  assumes ne: "DF \<noteq> []" and oct: "BMS_rollback (first_date DF) mod 12 = 9"
  shows "starts_in_October (GetMonthlyStatistics DF)"
proof -
  let ?a = "BMS_rollback (first_date DF)" and ?b = "BMS_rollback (last_date DF)"
  let ?T = "GetMonthlyStatistics DF"
  have lab: "map fst ?T = map BMS_date [?a..?b]"
    using resample_labels [OF ne, of BMS_date BMS_rollback] by (simp add: GetMonthlyStatistics_labels)
  then have len: "length ?T = length [?a..?b]"
    by (metis length_map)
  have "map (month_of \<circ> fst) ?T = map month_of (map fst ?T)" by simp
  also have "\<dots> = map (\<lambda>k. nat (k mod 12) + 1) [?a..?b]"
    unfolding lab by (simp add: month_of_BMS_date comp_def)
  also have "\<dots> = map (\<lambda>i. (i + 9) mod 12 + 1) [0..<length [?a..?b]]"
  proof (rule nth_equalityI)
    show "length (map (\<lambda>k. nat (k mod 12) + 1) [?a..?b])
          = length (map (\<lambda>i. (i + 9) mod 12 + 1) [0..<length [?a..?b]])" by simp
  next
    fix i assume "i < length (map (\<lambda>k. nat (k mod 12) + 1) [?a..?b])"
    then have i: "i < length [?a..?b]" by simp
    then have "?a + int i \<le> ?b" by simp
    then have n: "[?a..?b] ! i = ?a + int i" by (rule nth_upto)
    have "(?a + int i) mod 12 = (?a mod 12 + int i) mod 12" by (simp add: mod_add_left_eq)
    also have "\<dots> = int ((i + 9) mod 12)" unfolding oct by (simp add: zmod_int add.commute)
    finally have "nat ((?a + int i) mod 12) = (i + 9) mod 12" by simp
    then show "map (\<lambda>k. nat (k mod 12) + 1) [?a..?b] ! i
               = map (\<lambda>i. (i + 9) mod 12 + 1) [0..<length [?a..?b]] ! i"
      using i n by simp
  qed
  finally show ?thesis unfolding starts_in_October_def len .
qed

text \<open>
  C4 (as amended). For every monthly statistics table that begins with an October and
  has one row for each successive month, \<^verbatim>\<open>GetMonthlyAverages\<close> returns a table of 12
  rows labelled 1 to 12 in calendar order: row \<open>k\<close> holds, for each statistic, the mean
  over all rows of calendar month \<open>k\<close>, however many years the table spans; the
  column \<^verbatim>\<open>site_no\<close> holds the mean over the October rows in every row.
\<close>

theorem GetMonthlyAverages_calendar_order:
  assumes al: "starts_in_October T" and k: "1 \<le> k" "k \<le> 12"
  shows "length (GetMonthlyAverages T) = 12
         \<and> fst (GetMonthlyAverages T ! (k - 1)) = k
         \<and> Mean_Flow (snd (GetMonthlyAverages T ! (k - 1)))
             = series_mean (map (Mean_Flow \<circ> snd) (rows_of_month k T))
         \<and> Coeff_Var (snd (GetMonthlyAverages T ! (k - 1)))
             = series_mean (map (Coeff_Var \<circ> snd) (rows_of_month k T))
         \<and> Tqmean (snd (GetMonthlyAverages T ! (k - 1)))
             = series_mean (map (Tqmean \<circ> snd) (rows_of_month k T))
         \<and> RB_Index (snd (GetMonthlyAverages T ! (k - 1)))
             = series_mean (map (RB_Index \<circ> snd) (rows_of_month k T))
         \<and> site_no_avg (snd (GetMonthlyAverages T ! (k - 1)))
             = series_mean (map (site_no_avg \<circ> snd) (rows_of_month 10 T))"
proof -
  have i: "k - 1 < 12" using k by simp
  note row = GetMonthlyAverages_nth [OF i, of T]
  note mc = month_calendar [OF k]
  have sl: "series_slice (month ! (k - 1)) 12 (map f T) = map f (rows_of_month k T)" for f
    using series_slice_month [OF al mc(1), of f] mc(2) by simp
  have s0: "series_slice 0 12 (map f T) = map f (rows_of_month 10 T)" for f
    using series_slice_month [OF al, of 0 f] by simp
  have len: "length (GetMonthlyAverages T) = 12" by (simp add: GetMonthlyAverages_def)
  show ?thesis unfolding row sl s0 using len k by simp
qed

theorem GetMonthlyAverages_order_counterexample:
  "map (Mean_Flow \<circ> snd) (GetMonthlyAverages oct_table)
     = [Fin 1, Fin 2, Fin 3, Fin 4, Fin 5, Fin 6, Fin 7, Fin 8, Fin 9, Fin 10, Fin 11, Fin 12]
   \<and> map (month_of \<circ> fst) oct_table = [10, 11, 12, 1, 2, 3, 4, 5, 6, 7, 8, 9]"
  by code_simp

theorem GetMonthlyAverages_calendar_order_witness:
  "starts_in_October oct_table \<and> (1::nat) \<le> 1 \<and> (1::nat) \<le> 12
   \<and> length (GetMonthlyAverages oct_table) = 12
   \<and> fst (GetMonthlyAverages oct_table ! 0) = 1
   \<and> Mean_Flow (snd (GetMonthlyAverages oct_table ! 0)) = Fin 1"
proof -
  have al: "starts_in_October oct_table" by code_simp
  have k: "(1::nat) \<le> 1" "(1::nat) \<le> 12" by simp_all
  have r: "series_mean (map (Mean_Flow \<circ> snd) (rows_of_month 1 oct_table)) = Fin 1"
    by code_simp
  show ?thesis
    using GetMonthlyAverages_calendar_order [OF al k] al r by simp
qed

end
